theory Spec2Isabelle
  imports Main "HOL-Library.Sublist" "HOL-Library.Word"
begin

unbundle bit_operations_syntax

section \<open>Go standard-library functions used by dr-get-dicom\<close>

text \<open>
  The program (package main of dccn.nl/cmd/dr-get-dicom) handles paths and names as Go
  strings, that is byte sequences; they are modelled as \<open>string\<close>.  The functions of
  this section are those of the Go packages strings, regexp and path/filepath (Unix) that
  the program calls; each definition follows the library's documented behaviour.
\<close>

subsection \<open>Package strings\<close>

text \<open>strings.Index: the index of the first instance of substr in s, or -1.\<close>

fun index_from :: "string \<Rightarrow> string \<Rightarrow> int \<Rightarrow> int" where
  "index_from substr [] n = (if substr = [] then n else - 1)"
| "index_from substr (c # cs) n =
     (if prefix substr (c # cs) then n else index_from substr cs (n + 1))"

definition strings_Index :: "string \<Rightarrow> string \<Rightarrow> int" where
  "strings_Index s substr = index_from substr s 0"

definition strings_Contains :: "string \<Rightarrow> string \<Rightarrow> bool" where
  "strings_Contains s substr = (strings_Index s substr \<ge> 0)"

definition strings_HasSuffix :: "string \<Rightarrow> string \<Rightarrow> bool" where
  "strings_HasSuffix s sfx = (length sfx \<le> length s \<and> drop (length s - length sfx) s = sfx)"

text \<open>strings.Join with the separator "/", as filepath.Join calls it.\<close>

fun strings_Join_sep :: "string list \<Rightarrow> string" where
  "strings_Join_sep [] = []"
| "strings_Join_sep [e] = e"
| "strings_Join_sep (e # f # es) = e @ ''/'' @ strings_Join_sep (f # es)"

subsection \<open>Package regexp\<close>

text \<open>
  regexp.MatchString("[0-9]{3}-.*", line): the pattern is not anchored and \<open>.*\<close>
  matches the empty string, so the call reports whether line contains three ASCII
  digits followed by a hyphen.
\<close>

definition is_digit :: "char \<Rightarrow> bool" where
  "is_digit c = (c \<in> set ''0123456789'')"

fun match_series :: "string \<Rightarrow> bool" where
  "match_series (a # b # c # d # cs) =
     ((is_digit a \<and> is_digit b \<and> is_digit c \<and> d = CHR ''-'') \<or> match_series (b # c # d # cs))"
| "match_series _ = False"

subsection \<open>Package path/filepath (Unix)\<close>

definition IsPathSeparator :: "char \<Rightarrow> bool" where
  "IsPathSeparator c = (c = CHR ''/'')"

text \<open>The elements of a path: the substrings between separators (some may be empty).\<close>

fun elements :: "string \<Rightarrow> string list" where
  "elements [] = [[]]"
| "elements (c # cs) =
     (if IsPathSeparator c then [] # elements cs
      else (case elements cs of [] \<Rightarrow> [[c]] | e # es \<Rightarrow> (c # e) # es))"

text \<open>
  filepath.Clean processes the elements from left to right, writing to an output
  buffer: an empty element and \<open>.\<close> are dropped; \<open>..\<close> removes the last element
  written when there is one that is not itself a kept \<open>..\<close>, is kept at the start of
  a path that is not rooted, and is dropped at the start of a rooted path; any other
  element is written.  The buffer is held here as the list of elements written, last
  one first.
\<close>

definition clean_step :: "bool \<Rightarrow> string list \<Rightarrow> string \<Rightarrow> string list" where
  "clean_step rooted out e =
     (if e = [] \<or> e = ''.'' then out
      else if e = ''..'' then
        (if out \<noteq> [] \<and> hd out \<noteq> ''..'' then tl out
         else if \<not> rooted then ''..'' # out
         else out)
      else e # out)"

definition filepath_Clean :: "string \<Rightarrow> string" where
  "filepath_Clean path =
     (if path = [] then ''.''
      else
        let rooted = IsPathSeparator (hd path);
            out = foldl (clean_step rooted) [] (elements path);
            res = (if rooted then ''/'' else []) @ strings_Join_sep (rev out)
        in if res = [] then ''.'' else res)"

text \<open>filepath.Join: empty elements before the first non-empty one are ignored, the
  rest is joined with the separator and cleaned; the result is empty when every element is.\<close>

definition filepath_Join :: "string list \<Rightarrow> string" where
  "filepath_Join elem =
     (case dropWhile (\<lambda>e. e = []) elem of
        [] \<Rightarrow> []
      | es \<Rightarrow> filepath_Clean (strings_Join_sep es))"

text \<open>filepath.Dir: all but the last element of path, cleaned.\<close>

definition filepath_Dir :: "string \<Rightarrow> string" where
  "filepath_Dir path =
     filepath_Clean (rev (dropWhile (\<lambda>c. \<not> IsPathSeparator c) (rev path)))"

text \<open>filepath.Base: the last element of path, trailing separators removed first.\<close>

definition filepath_Base :: "string \<Rightarrow> string" where
  "filepath_Base path =
     (if path = [] then ''.''
      else
        let p = dropWhile IsPathSeparator (rev path);
            b = rev (takeWhile (\<lambda>c. \<not> IsPathSeparator c) p)
        in if b = [] then ''/'' else b)"

text \<open>filepath.Ext: the suffix beginning at the final dot in the final element of path,
  found by scanning from the end; empty when there is no dot.\<close>

fun ext_scan :: "string \<Rightarrow> string \<Rightarrow> string" where
  "ext_scan [] acc = []"
| "ext_scan (c # cs) acc =
     (if IsPathSeparator c then []
      else if c = CHR ''.'' then c # acc
      else ext_scan cs (c # acc))"

definition filepath_Ext :: "string \<Rightarrow> string" where
  "filepath_Ext path = ext_scan (rev path) []"

text \<open>Cleaned rooted paths by their components: a plain component is a name that is
  not empty, has no separator and is neither \<open>.\<close> nor \<open>..\<close>; the path of the components
  \<open>cs\<close> is the separator followed by the components joined with separators.\<close>

definition plain :: "string \<Rightarrow> bool" where
  "plain c = (c \<noteq> [] \<and> CHR ''/'' \<notin> set c \<and> c \<noteq> ''.'' \<and> c \<noteq> ''..'')"

definition rooted_path :: "string list \<Rightarrow> string" where
  "rooted_path cs = CHR ''/'' # strings_Join_sep cs"

section \<open>Predicates on file names (main.go)\<close>

definition isImaFile :: "string \<Rightarrow> bool" where
  "isImaFile path = (if filepath_Ext path = ''.IMA'' then True else False)"

definition isZipFile :: "string \<Rightarrow> bool" where
  "isZipFile path = (if filepath_Ext path = ''.zip'' then True else False)"

section \<open>The environment of the program\<close>

text \<open>
  Go functions return a value together with an error that is nil on success.  An error
  is modelled by the place that creates it (named as in the design's taxonomy) and its
  message.  \<open>IOError\<close> stands for the errors of package os and io, and \<open>TransferError\<close> for
  the Go error of an external command's final status.
\<close>

datatype error =
    PathResolutionError string
  | DirectoryCreationError string
  | TransferError string
  | ArchiveOpenError string
  | EmptyArchiveError string
  | IOError string

fun msg :: "error \<Rightarrow> string" where
  "msg (PathResolutionError s) = s"
| "msg (DirectoryCreationError s) = s"
| "msg (TransferError s) = s"
| "msg (ArchiveOpenError s) = s"
| "msg (EmptyArchiveError s) = s"
| "msg (IOError s) = s"

text \<open>
  The result of a call of type \<open>(string, error)\<close>: the pair returned, or a run-time
  panic (an index out of range, a nil dereference), which ends the whole program.
\<close>

datatype ret = Return string "error option" | Panicked

text \<open>
  The local file system is a map from cleaned paths to nodes; a regular file has its
  bytes and its mode bits (the permission bits and the setuid, setgid and sticky bits,
  as the system stores them).  The root and the working directory always exist.
\<close>

type_synonym FileMode = "32 word"

datatype node = Directory | File string FileMode

type_synonym filesystem = "string \<rightharpoonup> node"

text \<open>
  A tar header (the fields the program reads) and what successive calls of
  \<open>tr.Next()\<close> give on an archive: an entry (its header, the bytes its body yields, and
  whether reading the body ends in an error), or an error other than io.EOF.  After the
  last item \<open>tr.Next()\<close> returns io.EOF.
\<close>

record Header =
  Typeflag :: char
  Name :: string
  Mode :: "64 word"

definition TypeReg :: char where
  "TypeReg = CHR ''0''"

definition TypeDir :: char where
  "TypeDir = CHR ''5''"

datatype next_result = Entry Header string bool | Broken

text \<open>
  The gzip and tar decoders are a parameter of the model: a function from the bytes of a
  file to the items of the archive, \<open>None\<close> when gzip.NewReader fails.
\<close>

type_synonym decoder = "string \<Rightarrow> next_result list option"

text \<open>The final status of an external command (the fields of cmd.Status the program
  reads): the exit code, and the message of the Go error when there is one.\<close>

record Status =
  Exit :: int
  Error :: "string option"

text \<open>What \<open>iget -f path loc\<close> does for a remote path: it stores the object's bytes at
  loc and exits with 0, or it ends with the given status and stores nothing.\<close>

datatype fetch = Fetched string | Failed Status

datatype level = DebugLevel | InfoLevel | WarnLevel | ErrorLevel

text \<open>The world of the program: the local file system, the file mode creation mask of
  the process, the remote objects and the log.\<close>

record world =
  fs :: filesystem
  umask :: FileMode
  irods :: "string \<Rightarrow> fetch"
  logs :: "(level \<times> string) list"

text \<open>The command-line options the functions read (global variables in main.go).\<close>

record opts =
  opts_date :: string
  opts_ddir :: string

definition log :: "level \<Rightarrow> string \<Rightarrow> world \<Rightarrow> world" where
  "log l s w = w\<lparr>logs := logs w @ [(l, s)]\<rparr>"

subsection \<open>Package os\<close>

text \<open>The ancestors of a cleaned path and the path itself, the nearest to the root
  first: the paths of its leading components.\<close>

fun path_chain :: "string \<Rightarrow> string list \<Rightarrow> string list" where
  "path_chain acc [] = []"
| "path_chain acc (c # cs) =
     (let p = (if acc = [] \<or> acc = ''/'' then acc @ c else acc @ ''/'' @ c)
      in p # path_chain p cs)"

definition ancestors_and_self :: "string \<Rightarrow> string list" where
  "ancestors_and_self dir =
     path_chain (if dir \<noteq> [] \<and> IsPathSeparator (hd dir) then ''/'' else [])
       (filter (\<lambda>e. e \<noteq> [] \<and> e \<noteq> ''.'') (elements dir))"

text \<open>os.MkdirAll(dir, 0755), on the path and then its ancestors, the nearest first:
  nothing is done when the path is a directory, the call fails when it is a regular
  file, and otherwise the parent is made first and then the path becomes a directory.\<close>

fun mkdir_chain :: "string list \<Rightarrow> filesystem \<Rightarrow> filesystem option" where
  "mkdir_chain [] f = Some f"
| "mkdir_chain (p # ps) f =
     (case f p of
        Some Directory \<Rightarrow> Some f
      | Some (File d m) \<Rightarrow> None
      | None \<Rightarrow>
          (case mkdir_chain ps f of
             None \<Rightarrow> None
           | Some f' \<Rightarrow> Some (f'(p \<mapsto> Directory))))"

definition os_MkdirAll :: "string \<Rightarrow> filesystem \<Rightarrow> filesystem option" where
  "os_MkdirAll dir f = mkdir_chain (rev (ancestors_and_self dir)) f"

text \<open>os.Open(name): fails when nothing is at name.\<close>

definition os_Open :: "string \<Rightarrow> filesystem \<Rightarrow> error + node" where
  "os_Open name f =
     (case f name of
        None \<Rightarrow> Inl (IOError (''open '' @ name @ '': no such file or directory''))
      | Some n \<Rightarrow> Inr n)"

text \<open>gzip.NewReader on an opened file: reading a directory fails, the bytes of a
  regular file go to the decoder.\<close>

definition gzip_NewReader :: "decoder \<Rightarrow> node \<Rightarrow> error + next_result list" where
  "gzip_NewReader gz n =
     (case n of
        Directory \<Rightarrow> Inl (ArchiveOpenError ''read: is a directory'')
      | File d m \<Rightarrow>
          (case gz d of
             None \<Rightarrow> Inl (ArchiveOpenError ''gzip: invalid header'')
           | Some tr \<Rightarrow> Inr tr))"

text \<open>The mode bits that os.OpenFile passes to the system for a Go file mode: its
  permission bits (the low 9 bits), and the setuid, setgid and sticky bits for the bits
  23, 22 and 20 of the Go file mode.\<close>

definition syscallMode :: "FileMode \<Rightarrow> FileMode" where
  "syscallMode i =
     (i AND 511) OR (if bit i 23 then 2048 else 0) OR (if bit i 22 then 1024 else 0)
       OR (if bit i 20 then 512 else 0)"

text \<open>os.OpenFile(name, O_CREATE|O_RDWR, perm) in a process with the file mode creation
  mask \<open>um\<close>: fails on a directory, opens an existing file as it is (it is not truncated
  and keeps its mode), creates an empty file otherwise, with the mode bits of perm that
  the mask does not clear.\<close>

definition os_OpenFile ::
  "string \<Rightarrow> FileMode \<Rightarrow> FileMode \<Rightarrow> filesystem \<Rightarrow> error + filesystem" where
  "os_OpenFile name perm um f =
     (case f name of
        Some Directory \<Rightarrow> Inl (IOError (''open '' @ name @ '': is a directory''))
      | Some (File d m) \<Rightarrow> Inr f
      | None \<Rightarrow> Inr (f(name \<mapsto> File [] (syscallMode perm AND NOT um))))"

text \<open>Writing bytes through a newly opened file: they replace the bytes at the start
  of the file, and what the file held beyond them stays.\<close>

definition file_Write :: "string \<Rightarrow> string \<Rightarrow> filesystem \<Rightarrow> filesystem" where
  "file_Write name bytes f =
     (case f name of
        Some (File old m) \<Rightarrow> f(name \<mapsto> File (bytes @ drop (length bytes) old) m)
      | _ \<Rightarrow> f)"

definition os_Remove :: "string \<Rightarrow> filesystem \<Rightarrow> filesystem" where
  "os_Remove name f = f(name := None)"

definition os_FileMode :: "64 word \<Rightarrow> FileMode" where
  "os_FileMode m = ucast m"

text \<open>The external command \<open>iget -f path loc\<close>.\<close>

definition iget :: "string \<Rightarrow> string \<Rightarrow> world \<Rightarrow> Status \<times> world" where
  "iget path loc w =
     (case irods w path of
        Fetched d \<Rightarrow> (\<lparr>Exit = 0, Error = None\<rparr>, w\<lparr>fs := (fs w)(loc \<mapsto> File d 420)\<rparr>)
      | Failed st \<Rightarrow> (st, w))"

section \<open>Retrieval and extraction (main.go)\<close>

text \<open>copyReaderToPath: the reader is given by the bytes it yields and whether it ends
  in an error; \<open>um\<close> is the file mode creation mask of the process.\<close>

definition copyReaderToPath ::
  "string \<times> bool \<Rightarrow> string \<Rightarrow> FileMode \<Rightarrow> FileMode \<Rightarrow> filesystem \<Rightarrow>
   error option \<times> filesystem" where
  "copyReaderToPath reader path mode um f =
     (case os_OpenFile path mode um f of
        Inl err \<Rightarrow> (Some err, f)
      | Inr f' \<Rightarrow>
          (if snd reader then (Some (IOError ''unexpected EOF''), file_Write path (fst reader) f')
           else (None, file_Write path (fst reader) f')))"

text \<open>makeDownloadCmd: the error of os.OpenFile is dropped, and the write on the nil
  file then fails.\<close>

definition makeDownloadCmd ::
  "string \<Rightarrow> string \<Rightarrow> FileMode \<Rightarrow> filesystem \<Rightarrow> error option \<times> filesystem" where
  "makeDownloadCmd sourceDir destDir um f =
     (let fname = filepath_Join [destDir, ''cmd.sh''];
          cmd = ''irsync -r i:'' @ sourceDir @ '' '' @ destDir
      in case os_OpenFile fname 493 um f of
           Inl err \<Rightarrow> (Some (IOError ''invalid argument''), f)
         | Inr f' \<Rightarrow> (None, file_Write fname cmd f'))"

text \<open>The first lines of downloadDicom (main.go, 249 to 259): the local path \<open>loc\<close>.
  The slice \<open>path[i+8:]\<close> panics when \<open>i+8\<close> is beyond the end of path.\<close>

definition downloadDicom_loc :: "opts \<Rightarrow> string \<Rightarrow> ret" where
  "downloadDicom_loc os path =
     (let i = strings_Index path (opts_date os) in
      if i < 0 then Return [] (Some (PathResolutionError (''unknown path: '' @ path)))
      else if int (length path) < i + 8 then Panicked
      else
        let loc = filepath_Join [opts_ddir os, opts_date os, drop (nat (i + 8)) path]
        in if isImaFile loc
           then Return (filepath_Join [filepath_Dir (filepath_Dir loc), filepath_Base loc]) None
           else Return loc None)"

text \<open>The loop of downloadDicom over the entries of the archive (main.go, 308 to 332).\<close>

fun downloadDicom_loop ::
  "next_result list \<Rightarrow> string \<Rightarrow> string \<Rightarrow> string \<Rightarrow> world \<Rightarrow> ret \<times> world" where
  "downloadDicom_loop [] path loc dir w =
     (Return [] (Some (EmptyArchiveError (''empty archive: '' @ loc))), w)"
| "downloadDicom_loop (Broken # tr) path loc dir w = (Panicked, w)"
| "downloadDicom_loop (Entry h body rerr # tr) path loc dir w =
     (if Typeflag h = TypeDir then downloadDicom_loop tr path loc dir w
      else if Typeflag h = TypeReg then
        (let fdicom = filepath_Join [dir, filepath_Base (Name h)] in
         case copyReaderToPath (body, rerr) fdicom (os_FileMode (Mode h)) (umask w) (fs w) of
           (Some err, f) \<Rightarrow> (Return [] (Some err), w\<lparr>fs := f\<rparr>)
         | (None, f) \<Rightarrow>
             (let w1 = log DebugLevel (''DICOM file extracted: '' @ fdicom) (w\<lparr>fs := f\<rparr>) in
              case makeDownloadCmd (filepath_Dir path) dir (umask w1) (fs w1) of
                (Some err, f') \<Rightarrow>
                  (Return fdicom None,
                   log WarnLevel (''cannot write command: '' @ msg err @ [CHR 0x0A]) (w1\<lparr>fs := f'\<rparr>))
              | (None, f') \<Rightarrow> (Return fdicom None, w1\<lparr>fs := f'\<rparr>)))
      else downloadDicom_loop tr path loc dir w)"

text \<open>downloadDicom.  The deferred function (main.go, 300 to 304) runs when the function
  returns after the gzip reader was opened, also when it panics.\<close>

definition downloadDicom :: "decoder \<Rightarrow> opts \<Rightarrow> string \<Rightarrow> world \<Rightarrow> ret \<times> world" where
  "downloadDicom gz os path w =
     (case downloadDicom_loc os path of
        Panicked \<Rightarrow> (Panicked, w)
      | Return s (Some err) \<Rightarrow> (Return s (Some err), w)
      | Return loc None \<Rightarrow>
          (let dir = filepath_Dir loc in
           case os_MkdirAll dir (fs w) of
             None \<Rightarrow> (Return [] (Some (DirectoryCreationError (''cannot create dir: '' @ dir))), w)
           | Some f1 \<Rightarrow>
               (let w1 = log DebugLevel (path @ '' -> '' @ loc @ [CHR 0x0A]) (w\<lparr>fs := f1\<rparr>) in
                case iget path loc w1 of
                  (st, w2) \<Rightarrow>
                    if Exit st \<noteq> 0 then (Return [] (map_option TransferError (Error st)), w2)
                    else if isZipFile loc then (Return loc None, w2)
                    else if isImaFile loc then
                      (let dir_src = filepath_Dir (filepath_Dir path) in
                       case makeDownloadCmd dir_src dir (umask w2) (fs w2) of
                         (Some err, f') \<Rightarrow>
                           (Return loc None,
                            log WarnLevel (''cannot write command: '' @ msg err @ [CHR 0x0A])
                              (w2\<lparr>fs := f'\<rparr>))
                       | (None, f') \<Rightarrow> (Return loc None, w2\<lparr>fs := f'\<rparr>))
                    else
                      (case os_Open loc (fs w2) of
                         Inl err \<Rightarrow> (Return [] (Some err), w2)
                       | Inr n \<Rightarrow>
                           (case gzip_NewReader gz n of
                              Inl err \<Rightarrow> (Return [] (Some err), w2)
                            | Inr tr \<Rightarrow>
                                (case downloadDicom_loop tr path loc dir w2 of
                                   (r, w3) \<Rightarrow> (r, w3\<lparr>fs := os_Remove loc (fs w3)\<rparr>)))))))"

section \<open>The extractors (second source file)\<close>

datatype Extractor = DicomExtractorTgz | DicomExtractorZip | DicomExtractorIgnore

definition GetDicomExtractor :: "string \<Rightarrow> Extractor" where
  "GetDicomExtractor path =
     (if strings_HasSuffix path ''.tar.gz'' then DicomExtractorTgz
      else if strings_HasSuffix path ''.zip'' then DicomExtractorZip
      else DicomExtractorIgnore)"

text \<open>The loop of DicomExtractorTgz.Extract over the entries of the archive.\<close>

fun Extract_loop :: "next_result list \<Rightarrow> string \<Rightarrow> string \<Rightarrow> world \<Rightarrow> ret \<times> world" where
  "Extract_loop [] pathArchive dir w =
     (Return [] (Some (EmptyArchiveError (''empty archive: '' @ pathArchive))), w)"
| "Extract_loop (Broken # tr) pathArchive dir w = (Panicked, w)"
| "Extract_loop (Entry h body rerr # tr) pathArchive dir w =
     (if Typeflag h = TypeDir then Extract_loop tr pathArchive dir w
      else if Typeflag h = TypeReg then
        (let fdicom = filepath_Join [dir, filepath_Base (Name h)] in
         case copyReaderToPath (body, rerr) fdicom (os_FileMode (Mode h)) (umask w) (fs w) of
           (Some err, f) \<Rightarrow> (Return [] (Some err), w\<lparr>fs := f\<rparr>)
         | (None, f) \<Rightarrow>
             (Return fdicom None,
              log DebugLevel (''DICOM file extracted: '' @ fdicom) (w\<lparr>fs := f\<rparr>)))
      else Extract_loop tr pathArchive dir w)"

fun Extract :: "decoder \<Rightarrow> Extractor \<Rightarrow> string \<Rightarrow> world \<Rightarrow> ret \<times> world" where
  "Extract gz DicomExtractorTgz pathArchive w =
     (case os_Open pathArchive (fs w) of
        Inl err \<Rightarrow> (Return [] (Some err), w)
      | Inr n \<Rightarrow>
          (case gzip_NewReader gz n of
             Inl err \<Rightarrow> (Return [] (Some err), w)
           | Inr tr \<Rightarrow>
               (let dir = filepath_Dir pathArchive in
                case Extract_loop tr pathArchive dir w of
                  (r, w') \<Rightarrow> (r, w'\<lparr>fs := os_Remove pathArchive (fs w')\<rparr>))))"
| "Extract gz DicomExtractorIgnore pathArchive w = (Return pathArchive None, w)"
| "Extract gz DicomExtractorZip pathArchive w = (Return pathArchive None, w)"

text \<open>An archive with no regular file: every call of \<open>tr.Next()\<close> before the end of
  the stream gives an entry whose type is not that of a regular file.\<close>

fun no_regular :: "next_result list \<Rightarrow> bool" where
  "no_regular [] = True"
| "no_regular (Entry h body rerr # tr) = (Typeflag h \<noteq> TypeReg \<and> no_regular tr)"
| "no_regular (Broken # tr) = False"

section \<open>The stages of getOneDicom (main.go)\<close>

subsection \<open>The scan of the catalog and the deduplication of collections\<close>

text \<open>
  The first goroutine of getOneDicom (main.go, 96 to 129) is one loop around a
  \<open>select\<close>.  An event is the case the \<open>select\<close> takes: a line of the query's standard
  output, a line of its standard error, its final status, or the default case, which is
  taken when no channel is ready (both output channels are then empty).  The state of the
  loop: the map \<open>collMap\<close>, the values sent on \<open>chanColls\<close> so far, whether \<open>chanColls\<close>
  was closed, the variable \<open>m\<close> of the source (here \<open>m_exit\<close>), and the log.
\<close>

datatype event = Stdout string | Stderr string | Final Status | Default

record scan =
  collMap :: "string \<rightharpoonup> bool"
  chanColls :: "string list"
  closed :: bool
  m_exit :: int
  scan_logs :: "(level \<times> string) list"

text \<open>Reading a Go map of booleans: a key that is absent reads as false.\<close>

definition visited :: "(string \<rightharpoonup> bool) \<Rightarrow> string \<Rightarrow> bool" where
  "visited cm k = (case cm k of None \<Rightarrow> False | Some b \<Rightarrow> b)"

definition scan_init :: scan where
  "scan_init = \<lparr>collMap = Map.empty, chanColls = [], closed = False, m_exit = 0, scan_logs = []\<rparr>"

fun scan_loop :: "event list \<Rightarrow> scan \<Rightarrow> scan" where
  "scan_loop [] s = s"
| "scan_loop (Stdout line # es) s =
     (if match_series line then
        (if \<not> visited (collMap s) (filepath_Dir line)
         then scan_loop es
                (s\<lparr>collMap := (collMap s)(filepath_Dir line \<mapsto> True),
                   chanColls := chanColls s @ [line]\<rparr>)
         else scan_loop es s)
      else scan_loop es (s\<lparr>chanColls := chanColls s @ [line]\<rparr>))"
| "scan_loop (Stderr line # es) s =
     scan_loop es (s\<lparr>scan_logs := scan_logs s @ [(ErrorLevel, line)]\<rparr>)"
| "scan_loop (Final st # es) s =
     scan_loop es
       ((if Exit st \<noteq> 0
         then s\<lparr>scan_logs := scan_logs s @
                 [(ErrorLevel, case Error st of None \<Rightarrow> ''<nil>'' | Some err \<Rightarrow> err)]\<rparr>
         else s)\<lparr>m_exit := 1\<rparr>)"
| "scan_loop (Default # es) s =
     (if m_exit s = 1
      then s\<lparr>closed := True, scan_logs := scan_logs s @ [(DebugLevel, ''chanColls closed'')]\<rparr>
      else scan_loop es s)"

text \<open>The lines of standard output among the events, in their order.\<close>

fun stdout_lines :: "event list \<Rightarrow> string list" where
  "stdout_lines [] = []"
| "stdout_lines (Stdout l # es) = l # stdout_lines es"
| "stdout_lines (e # es) = stdout_lines es"

text \<open>An invariant of the loop: the parent directory of every forwarded name that has a
  series identifier is marked in \<open>collMap\<close>, and no two such names have the same parent
  directory.\<close>

definition scan_inv :: "scan \<Rightarrow> bool" where
  "scan_inv s = ((\<forall>n \<in> set (chanColls s). match_series n \<longrightarrow> visited (collMap s) (filepath_Dir n))
     \<and> (\<forall>k. length (filter (\<lambda>n. match_series n \<and> filepath_Dir n = k) (chanColls s)) \<le> 1))"

text \<open>The session key in the words of the design (section 3): the parent-of-parent
  directory of the name, as a path and as its last component.\<close>

definition parent_of_parent :: "string \<Rightarrow> string" where
  "parent_of_parent n = filepath_Dir (filepath_Dir n)"

definition parent_of_parent_component :: "string \<Rightarrow> string" where
  "parent_of_parent_component n = filepath_Base (filepath_Dir (filepath_Dir n))"

text \<open>
  The contract of the deduplicator in the words of the design (section 4.1), the
  function that gives the session key being a parameter: a name that matches the series
  pattern is dropped when its key is in the set of keys seen, and is forwarded, its key
  being added to the set, otherwise; a name that does not match is forwarded.
\<close>

fun spec_dedup :: "(string \<Rightarrow> string) \<Rightarrow> string set \<Rightarrow> string list \<Rightarrow> string list" where
  "spec_dedup key seen [] = []"
| "spec_dedup key seen (n # ns) =
     (if match_series n then
        (if key n \<in> seen then spec_dedup key seen ns
         else n # spec_dedup key (insert (key n) seen) ns)
      else n # spec_dedup key seen ns)"

subsection \<open>The selection of files in a collection\<close>

text \<open>The loop over the lines of one collection's listing (main.go, 146 to 161): the
  values it sends on \<open>chanFiles\<close>.\<close>

fun select_files :: "string list \<Rightarrow> string list" where
  "select_files [] = []"
| "select_files (l # ls) =
     (if strings_Contains l ''CAT_NO_ROWS_FOUND'' then select_files ls
      else if isZipFile l then l # select_files ls
      else [l])"

text \<open>A worker of the first pool (main.go, 136 to 163), on the collections it receives;
  \<open>listing\<close> gives the lines that the query of a collection prints.\<close>

fun files_worker :: "(string \<Rightarrow> string list) \<Rightarrow> string list \<Rightarrow> string list" where
  "files_worker listing [] = []"
| "files_worker listing (c # cs) = select_files (listing c) @ files_worker listing cs"

subsection \<open>The retrieval of files\<close>

text \<open>A worker of the second pool (main.go, 180 to 192), on the file names it receives:
  the values it sends on \<open>chanDicoms\<close>, and whether it reaches the end of its loop (it
  does not when downloadDicom panics).\<close>

fun download_worker ::
  "decoder \<Rightarrow> opts \<Rightarrow> string list \<Rightarrow> world \<Rightarrow> (string list \<times> bool) \<times> world" where
  "download_worker gz os [] w = (([], True), w)"
| "download_worker gz os (f # files) w =
     (case downloadDicom gz os f w of
        (Panicked, w') \<Rightarrow> (([], False), w')
      | (Return fdicom (Some err), w') \<Rightarrow>
          download_worker gz os files (log ErrorLevel (msg err) w')
      | (Return fdicom None, w') \<Rightarrow>
          (case download_worker gz os files w' of
             ((out, ok), w'') \<Rightarrow> ((fdicom # out, ok), w'')))"

subsection \<open>Worker pools and their completion\<close>

text \<open>
  Both pools of getOneDicom have the same shape (main.go, 132 to 173 and 176 to 202):
  \<open>W\<close> workers receive from an input channel until it is closed and empty, each then
  sends one byte on the unbuffered channel \<open>chanSync\<close>; one more goroutine calls
  waitWorkers, which receives \<open>W\<close> bytes and closes \<open>chanSync\<close>, and then closes the
  output channel.  A worker is at its receive, in the body of its loop (where it may send
  on the output channel), at its send on \<open>chanSync\<close>, or finished.  The state of a pool:
  the input channel's buffer and whether it is closed, the workers, how many bytes each
  worker has sent on \<open>chanSync\<close>, the counter \<open>i\<close> of waitWorkers, whether \<open>chanSync\<close> is
  closed, the values sent on the output channel, whether it is closed, and whether a send
  on the closed output channel has happened (a panic in Go).
\<close>

datatype worker = Receiving | Working | Signalling | Finished

record 'a pool =
  chanIn :: "'a list"
  in_closed :: bool
  workers :: "worker list"
  sent :: "nat list"
  i_wait :: nat
  sync_closed :: bool
  chanOut :: "'a list"
  out_closed :: bool
  send_on_closed :: bool

definition pool_init :: "nat \<Rightarrow> 'a pool" where
  "pool_init W =
     \<lparr>chanIn = [], in_closed = False, workers = replicate W Receiving, sent = replicate W 0,
      i_wait = 0, sync_closed = False, chanOut = [], out_closed = False,
      send_on_closed = False\<rparr>"

text \<open>One step of a pool of \<open>W\<close> workers: of the producer of the input channel, of the
  worker \<open>k\<close>, or of the goroutine that waits and closes.  The send of a worker on
  \<open>chanSync\<close> and the receive of waitWorkers are one step, the channel being unbuffered.\<close>

inductive step :: "nat \<Rightarrow> 'a pool \<Rightarrow> 'a pool \<Rightarrow> bool" where
  produce: "\<not> in_closed s \<Longrightarrow> step W s (s\<lparr>chanIn := chanIn s @ [x]\<rparr>)"
| close_in: "\<not> in_closed s \<Longrightarrow> step W s (s\<lparr>in_closed := True\<rparr>)"
| receive: "k < W \<Longrightarrow> workers s ! k = Receiving \<Longrightarrow> chanIn s = x # xs \<Longrightarrow>
     step W s (s\<lparr>chanIn := xs, workers := (workers s)[k := Working]\<rparr>)"
| receive_closed: "k < W \<Longrightarrow> workers s ! k = Receiving \<Longrightarrow> chanIn s = [] \<Longrightarrow> in_closed s \<Longrightarrow>
     step W s (s\<lparr>workers := (workers s)[k := Signalling]\<rparr>)"
| emit: "k < W \<Longrightarrow> workers s ! k = Working \<Longrightarrow> \<not> out_closed s \<Longrightarrow>
     step W s (s\<lparr>chanOut := chanOut s @ [y]\<rparr>)"
| emit_closed: "k < W \<Longrightarrow> workers s ! k = Working \<Longrightarrow> out_closed s \<Longrightarrow>
     step W s (s\<lparr>send_on_closed := True\<rparr>)"
| next_item: "k < W \<Longrightarrow> workers s ! k = Working \<Longrightarrow>
     step W s (s\<lparr>workers := (workers s)[k := Receiving]\<rparr>)"
| signal: "k < W \<Longrightarrow> workers s ! k = Signalling \<Longrightarrow> i_wait s < W \<Longrightarrow>
     step W s (s\<lparr>workers := (workers s)[k := Finished], sent := (sent s)[k := sent s ! k + 1],
                 i_wait := i_wait s + 1\<rparr>)"
| close_sync: "\<not> i_wait s < W \<Longrightarrow> \<not> sync_closed s \<Longrightarrow> step W s (s\<lparr>sync_closed := True\<rparr>)"
| close_out: "sync_closed s \<Longrightarrow> \<not> out_closed s \<Longrightarrow> step W s (s\<lparr>out_closed := True\<rparr>)"

inductive reachable :: "nat \<Rightarrow> 'a pool \<Rightarrow> bool" where
  init: "reachable W (pool_init W)"
| after: "reachable W s \<Longrightarrow> step W s t \<Longrightarrow> reachable W t"

text \<open>An invariant of a pool: the counter of waitWorkers is the number of finished
  workers, a worker has sent one byte on \<open>chanSync\<close> when it is finished and none
  before, a worker leaves its loop only when the input channel is closed and empty,
  \<open>chanSync\<close> is closed only when the counter is \<open>W\<close>, the output channel is closed
  only after \<open>chanSync\<close>, and no send on the closed output channel has happened.\<close>

definition pool_inv :: "nat \<Rightarrow> 'a pool \<Rightarrow> bool" where
  "pool_inv W s =
     (length (workers s) = W \<and> length (sent s) = W
      \<and> i_wait s = card {k. k < W \<and> workers s ! k = Finished}
      \<and> (\<forall>k<W. sent s ! k = (if workers s ! k = Finished then 1 else 0))
      \<and> (\<forall>k<W. workers s ! k = Signalling \<or> workers s ! k = Finished \<longrightarrow>
            in_closed s \<and> chanIn s = [])
      \<and> (sync_closed s \<longrightarrow> i_wait s = W)
      \<and> (out_closed s \<longrightarrow> sync_closed s)
      \<and> \<not> send_on_closed s)"

section \<open>Example data\<close>

text \<open>Four archives, named by the bytes of their files: a directory followed by two
  regular files, the first with the mode 0666; a directory and a symbolic link; a regular
  file with an empty name; a directory followed by a regular file named cmd.sh with the
  mode 04755 and another regular file.\<close>

definition ex_tar :: "next_result list" where
  "ex_tar =
     [Entry \<lparr>Typeflag = TypeDir, Name = ''001-localizer/'', Mode = 493\<rparr> [] False,
      Entry \<lparr>Typeflag = TypeReg, Name = ''001-localizer/00001.IMA'', Mode = 438\<rparr> ''DICM-A'' False,
      Entry \<lparr>Typeflag = TypeReg, Name = ''001-localizer/00002.IMA'', Mode = 420\<rparr> ''DICM-B'' False]"

definition ex_dirs :: "next_result list" where
  "ex_dirs =
     [Entry \<lparr>Typeflag = TypeDir, Name = ''001-localizer/'', Mode = 493\<rparr> [] False,
      Entry \<lparr>Typeflag = CHR ''2'', Name = ''001-localizer/latest'', Mode = 511\<rparr> [] False]"

definition ex_noname :: "next_result list" where
  "ex_noname = [Entry \<lparr>Typeflag = TypeReg, Name = [], Mode = 420\<rparr> ''DICM-C'' False]"

definition ex_cmd :: "next_result list" where
  "ex_cmd =
     [Entry \<lparr>Typeflag = TypeDir, Name = ''001-localizer/'', Mode = 493\<rparr> [] False,
      Entry \<lparr>Typeflag = TypeReg, Name = ''001-localizer/cmd.sh'', Mode = 2541\<rparr> ''DICM-D'' False,
      Entry \<lparr>Typeflag = TypeReg, Name = ''001-localizer/00002.IMA'', Mode = 420\<rparr> ''DICM-B'' False]"

definition ex_gz :: decoder where
  "ex_gz bytes =
     (if bytes = ''TGZ1'' then Some ex_tar
      else if bytes = ''TGZ2'' then Some ex_dirs
      else if bytes = ''TGZ3'' then Some ex_noname
      else if bytes = ''TGZ4'' then Some ex_cmd
      else None)"

definition ex_opts :: opts where
  "ex_opts = \<lparr>opts_date = ''20240101'', opts_ddir = ''/data''\<rparr>"

text \<open>A world in which the archive named by \<open>bytes\<close> is the remote object
  \<open>/raw/20240101/sesA/001-localizer/s.tar.gz\<close> and is also stored at its local path, a
  zip file is the remote object \<open>/raw/20240101/sesB/all.zip\<close>, and nothing else can be
  fetched; the file mode creation mask is 022.\<close>

definition ex_world :: "string \<Rightarrow> world" where
  "ex_world bytes =
     \<lparr>fs = [''/data/20240101/sesA/001-localizer/s.tar.gz'' \<mapsto> File bytes 420,
            ''/data/20240101/sesA/001-localizer'' \<mapsto> Directory],
      umask = 18,
      irods = (\<lambda>p. if p = ''/raw/20240101/sesA/001-localizer/s.tar.gz'' then Fetched bytes
                    else if p = ''/raw/20240101/sesB/all.zip'' then Fetched ''PK''
                    else Failed \<lparr>Exit = 3, Error = None\<rparr>),
      logs = []\<rparr>"

text \<open>A state of a pool of two workers after one collection was handled.\<close>

definition ex_pool :: "string pool" where
  "ex_pool =
     \<lparr>chanIn = [], in_closed = True, workers = [Finished, Finished], sent = [1, 1],
      i_wait = 2, sync_closed = True, chanOut = [''/raw/20240101/sesB/all.zip''],
      out_closed = True, send_on_closed = False\<rparr>"

section \<open>Properties of the library functions\<close>

lemma ext_scan_suffix: "ext_scan cs acc \<noteq> [] \<Longrightarrow> suffix (ext_scan cs acc) (rev cs @ acc)"
proof (induction cs arbitrary: acc)
  case Nil
  then show ?case by simp
next
  case (Cons c cs)
  show ?case
  proof (cases "IsPathSeparator c \<or> c = CHR ''.''")
    case True
    with Cons.prems show ?thesis by (auto simp: suffix_def split: if_splits)
  next
    case False
    with Cons.prems have "ext_scan cs (c # acc) \<noteq> []" by simp
    from Cons.IH [OF this] False show ?thesis by simp
  qed
qed

lemma Ext_suffix: "filepath_Ext p \<noteq> [] \<Longrightarrow> suffix (filepath_Ext p) p"
  using ext_scan_suffix [of "rev p" "[]"] by (simp add: filepath_Ext_def)

lemma isZipFile_iff: "isZipFile l \<longleftrightarrow> suffix ''.zip'' l"
proof
  assume "isZipFile l"
  then have e: "filepath_Ext l = ''.zip''" by (simp add: isZipFile_def split: if_splits)
  then have "filepath_Ext l \<noteq> []" by simp
  from Ext_suffix [OF this] e show "suffix ''.zip'' l" by simp
next
  assume "suffix ''.zip'' l"
  then obtain pre where "l = pre @ ''.zip''" by (auto simp: suffix_def)
  then show "isZipFile l"
    by (simp add: isZipFile_def filepath_Ext_def IsPathSeparator_def)
qed

lemma index_from_range: "index_from sub s n = - 1 \<or> n \<le> index_from sub s n"
  by (induction s arbitrary: n) (auto, force)

lemma index_from_sublist: "0 \<le> n \<Longrightarrow> (n \<le> index_from sub s n) = sublist sub s"
proof (induction s arbitrary: n)
  case Nil
  then show ?case by auto
next
  case (Cons c cs)
  show ?case
  proof (cases "prefix sub (c # cs)")
    case True
    then show ?thesis by (simp add: sublist_Cons_right)
  next
    case False
    have "0 \<le> n + 1" using Cons.prems by simp
    from Cons.IH [OF this] have ih: "(n + 1 \<le> index_from sub cs (n + 1)) = sublist sub cs" .
    have "index_from sub cs (n + 1) = - 1 \<or> n + 1 \<le> index_from sub cs (n + 1)"
      by (rule index_from_range)
    with ih Cons.prems False show ?thesis
      by (auto simp: sublist_Cons_right)
  qed
qed

lemma strings_Contains_iff: "strings_Contains s sub \<longleftrightarrow> sublist sub s"
  using index_from_sublist [of 0 sub s] by (simp add: strings_Contains_def strings_Index_def)

lemma index_from_first:
  "prefix sub (drop k s) \<Longrightarrow> k \<le> length s \<Longrightarrow> \<forall>j<k. \<not> prefix sub (drop j s) \<Longrightarrow>
   index_from sub s n = n + int k"
proof (induction s arbitrary: k n)
  case Nil
  then show ?case by simp
next
  case (Cons c cs)
  show ?case
  proof (cases k)
    case 0
    with Cons.prems show ?thesis by simp
  next
    case (Suc k')
    have np: "\<not> prefix sub (c # cs)" using Cons.prems(3) Suc by force
    have a: "prefix sub (drop k' cs)" using Cons.prems(1) Suc by simp
    have b: "k' \<le> length cs" using Cons.prems(2) Suc by simp
    have c: "\<forall>j<k'. \<not> prefix sub (drop j cs)"
    proof (intro allI impI)
      fix j assume "j < k'"
      then have "Suc j < k" using Suc by simp
      with Cons.prems(3) have "\<not> prefix sub (drop (Suc j) (c # cs))" by blast
      then show "\<not> prefix sub (drop j cs)" by simp
    qed
    from Cons.IH [OF a b c, of "n + 1"] np Suc show ?thesis by simp
  qed
qed

lemma strings_Index_first:
  assumes "\<forall>j<length pre. \<not> prefix sub (drop j (pre @ sub @ rest))"
  shows "strings_Index (pre @ sub @ rest) sub = int (length pre)"
  using index_from_first [of sub "length pre" "pre @ sub @ rest" 0] assms
  by (simp add: strings_Index_def)

subsection \<open>Paths given by their components\<close>

lemma elements_nonempty: "elements p \<noteq> []"
  by (induction p) (auto split: list.splits)

lemma elements_sep: "elements (a @ CHR ''/'' # b) = elements a @ elements b"
proof (induction a)
  case Nil
  then show ?case by (simp add: IsPathSeparator_def)
next
  case (Cons c a)
  obtain e es where e: "elements a = e # es"
    using elements_nonempty [of a] by (cases "elements a") auto
  with Cons show ?case by (simp add: IsPathSeparator_def)
qed

lemma elements_single: "CHR ''/'' \<notin> set c \<Longrightarrow> elements c = [c]"
  by (induction c) (auto simp: IsPathSeparator_def)

lemma elements_Join:
  "cs \<noteq> [] \<Longrightarrow> \<forall>c\<in>set cs. CHR ''/'' \<notin> set c \<Longrightarrow> elements (strings_Join_sep cs) = cs"
proof (induction cs rule: strings_Join_sep.induct)
  case 1
  then show ?case by simp
next
  case (2 e)
  then show ?case by (simp add: elements_single)
next
  case (3 e f es)
  then show ?case by (simp add: elements_sep elements_single)
qed

lemma foldl_clean_step:
  "\<forall>e\<in>set es. e = [] \<or> plain e \<Longrightarrow>
   foldl (clean_step r) out es = rev (filter (\<lambda>e. e \<noteq> []) es) @ out"
  by (induction es arbitrary: out) (auto simp: clean_step_def plain_def)

lemma Clean_rooted:
  assumes "p \<noteq> []" and "hd p = CHR ''/''" and "\<forall>e\<in>set (elements p). e = [] \<or> plain e"
  shows "filepath_Clean p = rooted_path (filter (\<lambda>e. e \<noteq> []) (elements p))"
  using assms foldl_clean_step [OF assms(3), of True "[]"]
  by (simp add: filepath_Clean_def IsPathSeparator_def Let_def rooted_path_def)

lemma elements_rooted:
  "\<forall>c\<in>set cs. plain c \<Longrightarrow> elements (rooted_path cs) = [] # (if cs = [] then [[]] else cs)"
  by (cases "cs = []") (auto simp: rooted_path_def IsPathSeparator_def elements_Join plain_def)

lemma Join_rooted:
  assumes "\<forall>c\<in>set rs. plain c" and "plain date" and "ts \<noteq> []" and "\<forall>c\<in>set ts. plain c"
  shows "filepath_Join [rooted_path rs, date, CHR ''/'' # strings_Join_sep ts] =
         rooted_path (rs @ date # ts)"
proof -
  let ?p = "rooted_path rs @ CHR ''/'' # date @ CHR ''/'' # CHR ''/'' # strings_Join_sep ts"
  have el: "elements ?p = elements (rooted_path rs) @ [date] @ [] # ts"
    using assms by (simp add: elements_sep elements_single elements_Join plain_def IsPathSeparator_def)
  have pl: "\<forall>e\<in>set (elements ?p). e = [] \<or> plain e"
    unfolding el using assms by (auto simp: elements_rooted)
  have fl: "filter (\<lambda>e. e \<noteq> []) (elements ?p) = rs @ date # ts"
    unfolding el using assms by (auto simp: elements_rooted plain_def filter_id_conv)
  have "filepath_Clean ?p = rooted_path (rs @ date # ts)"
    using Clean_rooted [of ?p] pl fl by (simp add: rooted_path_def)
  then show ?thesis
    by (simp add: filepath_Join_def rooted_path_def)
qed

lemma Join_rooted_base:
  assumes "\<forall>c\<in>set cs. plain c" and "plain f"
  shows "filepath_Join [rooted_path cs, f] = rooted_path (cs @ [f])"
proof -
  let ?p = "rooted_path cs @ CHR ''/'' # f"
  have el: "elements ?p = elements (rooted_path cs) @ [f]"
    using assms by (simp add: elements_sep elements_single plain_def)
  have pl: "\<forall>e\<in>set (elements ?p). e = [] \<or> plain e"
    unfolding el using assms by (auto simp: elements_rooted)
  have fl: "filter (\<lambda>e. e \<noteq> []) (elements ?p) = cs @ [f]"
    unfolding el using assms by (auto simp: elements_rooted plain_def filter_id_conv)
  have "filepath_Clean ?p = rooted_path (cs @ [f])"
    using Clean_rooted [of ?p] pl fl by (simp add: rooted_path_def)
  then show ?thesis
    by (simp add: filepath_Join_def rooted_path_def)
qed

lemma Join_sep_snoc: "cs \<noteq> [] \<Longrightarrow> strings_Join_sep (cs @ [f]) = strings_Join_sep cs @ CHR ''/'' # f"
  by (induction cs rule: strings_Join_sep.induct) auto

lemma rooted_snoc:
  "rooted_path (cs @ [f]) = (if cs = [] then [] else rooted_path cs) @ CHR ''/'' # f"
  by (simp add: rooted_path_def Join_sep_snoc)

lemma Dir_rooted:
  assumes "\<forall>c\<in>set cs. plain c" and "plain f"
  shows "filepath_Dir (rooted_path (cs @ [f])) = rooted_path cs"
proof -
  let ?x = "(if cs = [] then [] else rooted_path cs)"
  have nf: "\<forall>c\<in>set (rev f). \<not> IsPathSeparator c"
    using assms(2) by (auto simp: plain_def IsPathSeparator_def)
  have "rev (dropWhile (\<lambda>c. \<not> IsPathSeparator c) (rev (?x @ CHR ''/'' # f))) = ?x @ ''/''"
    using nf by (simp add: dropWhile_append3 IsPathSeparator_def)
  then have d: "filepath_Dir (rooted_path (cs @ [f])) = filepath_Clean (?x @ ''/'')"
    by (simp only: filepath_Dir_def rooted_snoc)
  show ?thesis
  proof (cases "cs = []")
    case True
    then show ?thesis unfolding d
      by (simp add: filepath_Clean_def clean_step_def IsPathSeparator_def rooted_path_def)
  next
    case False
    have el: "elements (rooted_path cs @ ''/'') = elements (rooted_path cs) @ [[]]"
      using elements_sep [of "rooted_path cs" "[]"] by simp
    have pl: "\<forall>e\<in>set (elements (rooted_path cs @ ''/'')). e = [] \<or> plain e"
      unfolding el using assms by (auto simp: elements_rooted)
    have fl: "filter (\<lambda>e. e \<noteq> []) (elements (rooted_path cs @ ''/'')) = cs"
      unfolding el using assms False by (auto simp: elements_rooted plain_def filter_id_conv)
    have "filepath_Clean (rooted_path cs @ ''/'') = rooted_path cs"
      using Clean_rooted [of "rooted_path cs @ ''/''"] pl fl by (simp add: rooted_path_def)
    with False show ?thesis unfolding d by simp
  qed
qed

lemma takeWhile_until: "\<forall>c\<in>set g. P c \<Longrightarrow> \<not> P x \<Longrightarrow> takeWhile P (g @ x # y) = g"
  by (induction g) auto

lemma Base_rooted:
  assumes "plain f"
  shows "filepath_Base (rooted_path (cs @ [f])) = f"
proof -
  let ?x = "(if cs = [] then [] else rooted_path cs)"
  have nf: "\<forall>c\<in>set (rev f). \<not> IsPathSeparator c"
    using assms by (auto simp: plain_def IsPathSeparator_def)
  have ne: "rev f \<noteq> []" using assms by (simp add: plain_def)
  then obtain c r where cr: "rev f = c # r" by (cases "rev f") auto
  then have nc: "\<not> IsPathSeparator c" using nf by simp
  have a: "dropWhile IsPathSeparator (rev (?x @ CHR ''/'' # f)) = rev f @ CHR ''/'' # rev ?x"
    using cr nc by simp
  have b: "takeWhile (\<lambda>c. \<not> IsPathSeparator c) (rev f @ CHR ''/'' # rev ?x) = rev f"
    by (rule takeWhile_until [OF nf]) (simp add: IsPathSeparator_def)
  show ?thesis
    unfolding rooted_snoc using ne
    by (simp only: filepath_Base_def Let_def a b) simp
qed

lemma ext_scan_sep:
  "\<forall>c\<in>set g. \<not> IsPathSeparator c \<Longrightarrow> ext_scan (g @ CHR ''/'' # y) acc = ext_scan g acc"
  by (induction g arbitrary: acc) (auto simp: IsPathSeparator_def)

lemma Ext_rooted:
  assumes "plain f"
  shows "filepath_Ext (rooted_path (cs @ [f])) = filepath_Ext f"
proof -
  have nf: "\<forall>c\<in>set (rev f). \<not> IsPathSeparator c"
    using assms by (auto simp: plain_def IsPathSeparator_def)
  show ?thesis
    unfolding rooted_snoc filepath_Ext_def using ext_scan_sep [OF nf] by simp
qed


lemma relocate_rooted:
  assumes "\<forall>c\<in>set cs. plain c" and "plain d" and "plain f"
  shows "(let loc = rooted_path (cs @ [d, f])
          in if isImaFile loc
             then Return (filepath_Join [filepath_Dir (filepath_Dir loc), filepath_Base loc]) None
             else Return loc None) =
         Return (rooted_path (cs @ (if isImaFile f then [f] else [d, f]))) None"
proof -
  have s: "cs @ [d, f] = (cs @ [d]) @ [f]" by simp
  have pd: "\<forall>c\<in>set (cs @ [d]). plain c" using assms by simp
  have i: "isImaFile (rooted_path (cs @ [d, f])) = isImaFile f"
    unfolding s isImaFile_def Ext_rooted [OF assms(3)] by simp
  have d1: "filepath_Dir (rooted_path (cs @ [d, f])) = rooted_path (cs @ [d])"
    unfolding s by (rule Dir_rooted [OF pd assms(3)])
  have d2: "filepath_Dir (rooted_path (cs @ [d])) = rooted_path cs"
    by (rule Dir_rooted [OF assms(1,2)])
  have b: "filepath_Base (rooted_path (cs @ [d, f])) = f"
    unfolding s by (rule Base_rooted [OF assms(3)])
  have j: "filepath_Join [rooted_path cs, f] = rooted_path (cs @ [f])"
    by (rule Join_rooted_base [OF assms(1,3)])
  show ?thesis
    by (simp only: Let_def i d1 d2 b j) simp
qed

section \<open>The errors of retrieval\<close>

lemma strings_Index_neg: "strings_Index s sub < 0 \<longleftrightarrow> \<not> sublist sub s"
  using index_from_sublist [of 0 sub s] index_from_range [of sub s 0]
  by (auto simp: strings_Index_def)

lemma downloadDicom_loc_error:
  "downloadDicom_loc os path = Return s (Some e) \<longleftrightarrow>
     \<not> sublist (opts_date os) path \<and> s = [] \<and> e = PathResolutionError (''unknown path: '' @ path)"
  by (auto simp: downloadDicom_loc_def Let_def strings_Index_neg)

lemma copyReaderToPath_error:
  "copyReaderToPath r p m um f = (Some e, f') \<Longrightarrow> \<exists>x. e = IOError x"
  by (auto simp: copyReaderToPath_def os_OpenFile_def split: sum.splits option.splits node.splits if_splits)

lemma downloadDicom_loop_error:
  "downloadDicom_loop tr path loc dir w = (Return s (Some e), w') \<Longrightarrow>
     (\<exists>x. e = IOError x) \<or> (\<exists>x. e = EmptyArchiveError x)"
proof (induction tr path loc dir w rule: downloadDicom_loop.induct)
  case (1 path loc dir w)
  then show ?case by auto
next
  case (2 tr path loc dir w)
  then show ?case by simp
next
  case (3 h body rerr tr path loc dir w)
  show ?case
  proof (cases "Typeflag h = TypeDir")
    case True
    with 3 show ?thesis by simp
  next
    case nd: False
    show ?thesis
    proof (cases "Typeflag h = TypeReg")
      case False
      with nd 3 show ?thesis by simp
    next
      case True
      with nd "3.prems" show ?thesis
        by (auto simp: Let_def split: prod.splits option.splits dest: copyReaderToPath_error)
    qed
  qed
qed

lemma gzip_NewReader_error: "gzip_NewReader gz n = Inl e \<Longrightarrow> \<exists>x. e = ArchiveOpenError x"
  by (auto simp: gzip_NewReader_def split: node.splits option.splits)

lemma os_Open_error: "os_Open p f = Inl e \<Longrightarrow> \<exists>x. e = IOError x"
  by (auto simp: os_Open_def split: option.splits)

lemma downloadDicom_other_errors:
  assumes "downloadDicom_loc os path = Return loc None"
    and "downloadDicom gz os path w = (Return s (Some e), w')"
  shows "\<forall>x. e \<noteq> PathResolutionError x"
proof -
  show ?thesis
    using assms(2) unfolding downloadDicom_def assms(1)
    by (auto simp: Let_def iget_def
          split: option.splits prod.splits if_splits sum.splits fetch.splits
          dest!: gzip_NewReader_error os_Open_error downloadDicom_loop_error)
qed

section \<open>The invariant of the catalog scan\<close>

lemma filter_empty_length: "(\<forall>n \<in> set xs. \<not> P n) \<Longrightarrow> length (filter P xs) = 0"
  by (induction xs) auto

lemma scan_inv_forward:
  assumes "scan_inv s" "match_series line" "\<not> visited (collMap s) (filepath_Dir line)"
  shows "scan_inv (s\<lparr>collMap := (collMap s)(filepath_Dir line \<mapsto> True),
                     chanColls := chanColls s @ [line]\<rparr>)"
proof -
  have none: "\<forall>n \<in> set (chanColls s). \<not> (match_series n \<and> filepath_Dir n = filepath_Dir line)"
    using assms by (auto simp: scan_inv_def)
  have z: "length (filter (\<lambda>n. match_series n \<and> filepath_Dir n = filepath_Dir line) (chanColls s)) = 0"
    by (rule filter_empty_length [OF none])
  show ?thesis
    using assms z unfolding scan_inv_def
    by (auto simp: visited_def)
qed

lemma scan_inv_pass:
  assumes "scan_inv s" "\<not> match_series line"
  shows "scan_inv (s\<lparr>chanColls := chanColls s @ [line]\<rparr>)"
  using assms by (auto simp: scan_inv_def)

lemma scan_inv_loop: "scan_inv s \<Longrightarrow> scan_inv (scan_loop es s)"
proof (induction es s rule: scan_loop.induct)
  case (1 s)
  then show ?case by simp
next
  case (2 line es s)
  then show ?case by (auto simp: scan_inv_forward scan_inv_pass)
next
  case (3 line es s)
  have "scan_inv (s\<lparr>scan_logs := scan_logs s @ [(ErrorLevel, line)]\<rparr>)"
    using "3.prems" by (simp add: scan_inv_def)
  with 3 show ?case by simp
next
  case (4 st es s)
  let ?s = "(if Exit st \<noteq> 0
         then s\<lparr>scan_logs := scan_logs s @
                 [(ErrorLevel, case Error st of None \<Rightarrow> ''<nil>'' | Some err \<Rightarrow> err)]\<rparr>
         else s)\<lparr>m_exit := 1\<rparr>"
  have "scan_inv ?s" using "4.prems" by (simp add: scan_inv_def)
  with 4 show ?case by simp
next
  case (5 es s)
  then show ?case by (auto simp: scan_inv_def)
qed

lemma scan_loop_subseq:
  "\<exists>ys. chanColls (scan_loop es s) = chanColls s @ ys \<and> subseq ys (stdout_lines es)"
proof (induction es s rule: scan_loop.induct)
  case (1 s)
  then show ?case by simp
next
  case (2 line es s)
  show ?case
  proof (cases "match_series line")
    case False
    from 2(3) [OF False] obtain ys where
      "chanColls (scan_loop es (s\<lparr>chanColls := chanColls s @ [line]\<rparr>)) = (chanColls s @ [line]) @ ys"
      "subseq ys (stdout_lines es)" by auto
    with False show ?thesis by auto
  next
    case True
    show ?thesis
    proof (cases "visited (collMap s) (filepath_Dir line)")
      case v: True
      from 2(2) [OF True] v obtain ys where
        "chanColls (scan_loop es s) = chanColls s @ ys" "subseq ys (stdout_lines es)" by auto
      with True v show ?thesis by auto
    next
      case v: False
      from 2(1) [OF True v] obtain ys where
        "chanColls (scan_loop es (s\<lparr>collMap := (collMap s)(filepath_Dir line \<mapsto> True),
                   chanColls := chanColls s @ [line]\<rparr>)) = (chanColls s @ [line]) @ ys"
        "subseq ys (stdout_lines es)" by auto
      with True v show ?thesis by auto
    qed
  qed
next
  case (3 line es s)
  then show ?case by simp
next
  case (4 st es s)
  then show ?case by (auto split: if_splits)
next
  case (5 es s)
  then show ?case by (auto split: if_splits)
qed

lemma scan_loop_spec:
  "chanColls (scan_loop (map Stdout ns) s) =
     chanColls s @ spec_dedup filepath_Dir {k. visited (collMap s) k} ns"
proof (induction ns arbitrary: s)
  case Nil
  then show ?case by simp
next
  case (Cons n ns)
  show ?case
  proof (cases "match_series n \<and> \<not> visited (collMap s) (filepath_Dir n)")
    case True
    let ?s = "s\<lparr>collMap := (collMap s)(filepath_Dir n \<mapsto> True), chanColls := chanColls s @ [n]\<rparr>"
    have e: "{k. visited (collMap ?s) k} = insert (filepath_Dir n) {k. visited (collMap s) k}"
      by (auto simp: visited_def)
    have ih: "chanColls (scan_loop (map Stdout ns) ?s) =
        chanColls ?s @ spec_dedup filepath_Dir {k. visited (collMap ?s) k} ns"
      by (rule Cons)
    have st: "scan_loop (map Stdout (n # ns)) s = scan_loop (map Stdout ns) ?s"
      using True by simp
    have sp: "spec_dedup filepath_Dir {k. visited (collMap s) k} (n # ns) =
        n # spec_dedup filepath_Dir (insert (filepath_Dir n) {k. visited (collMap s) k}) ns"
      using True by simp
    show ?thesis unfolding st sp ih e by simp
  next
    case False
    with Cons [of s] Cons [of "s\<lparr>chanColls := chanColls s @ [n]\<rparr>"] show ?thesis by auto
  qed
qed

section \<open>Steps of retrieval and extraction\<close>

lemmas path_defs = filepath_Join_def filepath_Dir_def filepath_Base_def filepath_Ext_def
  filepath_Clean_def clean_step_def IsPathSeparator_def isImaFile_def isZipFile_def

lemmas os_defs = os_MkdirAll_def ancestors_and_self_def os_Open_def os_OpenFile_def
  os_Remove_def file_Write_def
  gzip_NewReader_def copyReaderToPath_def makeDownloadCmd_def iget_def log_def

lemma TypeReg_neq_TypeDir: "TypeReg \<noteq> TypeDir"
  by (simp add: TypeReg_def TypeDir_def)

lemma downloadDicom_loop_no_regular:
  "no_regular tr \<Longrightarrow>
   downloadDicom_loop tr path loc dir w =
     (Return [] (Some (EmptyArchiveError (''empty archive: '' @ loc))), w)"
  by (induction tr path loc dir w rule: downloadDicom_loop.induct) auto

lemma Extract_loop_no_regular:
  "no_regular tr \<Longrightarrow>
   Extract_loop tr loc dir w =
     (Return [] (Some (EmptyArchiveError (''empty archive: '' @ loc))), w)"
  by (induction tr loc dir w rule: Extract_loop.induct) auto

lemma downloadDicom_archive:
  assumes "downloadDicom_loc os path = Return loc None"
    and "\<not> isZipFile loc" and "\<not> isImaFile loc"
    and "os_MkdirAll (filepath_Dir loc) (fs w) = Some f1"
    and "irods w path = Fetched bytes"
    and "gz bytes = Some tr"
  shows "downloadDicom gz os path w =
    (case downloadDicom_loop tr path loc (filepath_Dir loc)
            (w\<lparr>logs := logs w @ [(DebugLevel, path @ '' -> '' @ loc @ [CHR 0x0A])],
               fs := f1(loc \<mapsto> File bytes 420)\<rparr>) of
       (r, w3) \<Rightarrow> (r, w3\<lparr>fs := (fs w3)(loc := None)\<rparr>))"
  using assms
  by (simp add: downloadDicom_def Let_def iget_def log_def os_Open_def gzip_NewReader_def
      os_Remove_def)

lemma Extract_archive:
  assumes "fs w loc = Some (File bytes m0)" and "gz bytes = Some tr"
  shows "Extract gz DicomExtractorTgz loc w =
    (case Extract_loop tr loc (filepath_Dir loc) w of
       (r, w3) \<Rightarrow> (r, w3\<lparr>fs := (fs w3)(loc := None)\<rparr>))"
  using assms by (simp add: os_Open_def gzip_NewReader_def os_Remove_def)

lemma copyReaderToPath_fresh:
  "f dest = None \<Longrightarrow>
   copyReaderToPath (ba, False) dest m um f =
     (None, f(dest \<mapsto> File ba (syscallMode m AND NOT um)))"
  by (simp add: copyReaderToPath_def os_OpenFile_def file_Write_def)

lemma makeDownloadCmd_frame:
  "p \<noteq> filepath_Join [dir, ''cmd.sh''] \<Longrightarrow> snd (makeDownloadCmd src dir um f) p = f p"
  by (simp add: makeDownloadCmd_def os_OpenFile_def file_Write_def Let_def
      split: option.splits node.splits)

lemma downloadDicom_loop_directory:
  "Typeflag d = TypeDir \<Longrightarrow>
   downloadDicom_loop (Entry d bd ed # tr) path loc dir w = downloadDicom_loop tr path loc dir w"
  by simp

lemma downloadDicom_loop_regular:
  assumes "Typeflag a = TypeReg"
    and "fs w dest = None"
    and "dest = filepath_Join [dir, filepath_Base (Name a)]"
    and "dest \<noteq> filepath_Join [dir, ''cmd.sh'']"
  shows "fst (downloadDicom_loop (Entry a ba False # tr) path loc dir w) = Return dest None
      \<and> fs (snd (downloadDicom_loop (Entry a ba False # tr) path loc dir w)) dest =
           Some (File ba (syscallMode (ucast (Mode a)) AND NOT (umask w)))
      \<and> (\<forall>p. p \<noteq> dest \<and> p \<noteq> filepath_Join [dir, ''cmd.sh''] \<longrightarrow>
           fs (snd (downloadDicom_loop (Entry a ba False # tr) path loc dir w)) p = fs w p)"
proof -
  let ?m = "syscallMode (ucast (Mode a)) AND NOT (umask w)"
  let ?f = "(fs w)(dest \<mapsto> File ba ?m)"
  let ?w1 = "log DebugLevel (''DICOM file extracted: '' @ dest) (w\<lparr>fs := ?f\<rparr>)"
  obtain e f' where mk: "makeDownloadCmd (filepath_Dir path) dir (umask w) ?f = (e, f')"
    by (cases "makeDownloadCmd (filepath_Dir path) dir (umask w) ?f")
  have fr: "\<And>p. p \<noteq> filepath_Join [dir, ''cmd.sh''] \<Longrightarrow> f' p = ?f p"
    using makeDownloadCmd_frame [of _ dir "filepath_Dir path" "umask w" ?f] mk by simp
  have cp: "copyReaderToPath (ba, False) dest (os_FileMode (Mode a)) (umask w) (fs w) = (None, ?f)"
    using copyReaderToPath_fresh [of "fs w" dest ba "os_FileMode (Mode a)" "umask w"] assms(2)
    by (simp add: os_FileMode_def)
  have nd: "Typeflag a \<noteq> TypeDir" using assms(1) TypeReg_neq_TypeDir by simp
  have res: "downloadDicom_loop (Entry a ba False # tr) path loc dir w =
      (Return dest None,
       (case e of None \<Rightarrow> ?w1\<lparr>fs := f'\<rparr>
        | Some err \<Rightarrow> log WarnLevel (''cannot write command: '' @ msg err @ [CHR 0x0A]) (?w1\<lparr>fs := f'\<rparr>)))"
    using assms(1) nd assms(3) [symmetric] cp mk
    by (simp add: Let_def log_def split: option.splits)
  have fs': "fs (snd (downloadDicom_loop (Entry a ba False # tr) path loc dir w)) = f'"
    unfolding res by (simp add: log_def split: option.splits)
  have r1: "fst (downloadDicom_loop (Entry a ba False # tr) path loc dir w) = Return dest None"
    unfolding res by simp
  show ?thesis
    unfolding fs' r1 using fr assms(4) by simp
qed

lemma download_worker_append:
  "download_worker gz os xs w = ((out1, True), w1) \<Longrightarrow>
   download_worker gz os (xs @ zs) w =
     (case download_worker gz os zs w1 of ((out2, ok), w3) \<Rightarrow> ((out1 @ out2, ok), w3))"
proof (induction xs arbitrary: w out1)
  case Nil
  then show ?case by (simp split: prod.splits)
next
  case (Cons x xs)
  obtain r w' where d: "downloadDicom gz os x w = (r, w')" by (cases "downloadDicom gz os x w")
  show ?case
  proof (cases r)
    case Panicked
    with Cons.prems d show ?thesis by simp
  next
    case (Return fdicom eo)
    show ?thesis
    proof (cases eo)
      case (Some err)
      with Cons.prems d Return
      have "download_worker gz os xs (log ErrorLevel (msg err) w') = ((out1, True), w1)" by simp
      from Cons.IH [OF this] d Return Some show ?thesis by simp
    next
      case None
      obtain o' k w'' where r: "download_worker gz os xs w' = ((o', k), w'')"
        by (cases "download_worker gz os xs w'") auto
      with Cons.prems d Return None have e: "out1 = fdicom # o'" "k = True" "w'' = w1" by auto
      from Cons.IH [of w' o'] r e have
        "download_worker gz os (xs @ zs) w' =
           (case download_worker gz os zs w1 of ((out2, ok), w3) \<Rightarrow> ((o' @ out2, ok), w3))"
        by simp
      with d Return None e show ?thesis by (simp split: prod.splits)
    qed
  qed
qed

section \<open>Evaluation of the examples\<close>

lemmas ex_defs = ex_tar_def ex_dirs_def ex_noname_def ex_gz_def ex_opts_def ex_world_def

lemma ex_loc: "downloadDicom_loc ex_opts ''/raw/20240101/sesA/001-localizer/s.tar.gz'' =
    Return ''/data/20240101/sesA/001-localizer/s.tar.gz'' None"
  by (simp add: downloadDicom_loc_def ex_opts_def strings_Index_def path_defs Let_def)

lemma ex_dir: "filepath_Dir ''/data/20240101/sesA/001-localizer/s.tar.gz'' =
    ''/data/20240101/sesA/001-localizer''"
  by (simp add: path_defs)

lemma ex_kind: "\<not> isZipFile ''/data/20240101/sesA/001-localizer/s.tar.gz''"
  "\<not> isImaFile ''/data/20240101/sesA/001-localizer/s.tar.gz''"
  by (simp_all add: path_defs)

lemma ex_mkdir:
  "os_MkdirAll ''/data/20240101/sesA/001-localizer'' (fs (ex_world b)) = Some (fs (ex_world b))"
  by (simp add: os_MkdirAll_def ancestors_and_self_def IsPathSeparator_def ex_world_def)

lemma ex_dest: "filepath_Join [''/data/20240101/sesA/001-localizer'', filepath_Base ''001-localizer/00001.IMA'']
    = ''/data/20240101/sesA/001-localizer/00001.IMA''"
  by (simp add: path_defs)

lemma ex_zip:
  assumes "irods w ''/raw/20240101/sesB/all.zip'' = Fetched d"
    and "os_MkdirAll ''/data/20240101/sesB'' (fs w) = Some f1"
  shows "downloadDicom gz ex_opts ''/raw/20240101/sesB/all.zip'' w =
    (Return ''/data/20240101/sesB/all.zip'' None,
     w\<lparr>logs := logs w @
          [(DebugLevel, ''/raw/20240101/sesB/all.zip -> /data/20240101/sesB/all.zip'' @ [CHR 0x0A])],
       fs := f1(''/data/20240101/sesB/all.zip'' \<mapsto> File d 420)\<rparr>)"
proof -
  have l: "downloadDicom_loc ex_opts ''/raw/20240101/sesB/all.zip'' =
      Return ''/data/20240101/sesB/all.zip'' None"
    by (simp add: downloadDicom_loc_def ex_opts_def strings_Index_def path_defs Let_def)
  have dr: "filepath_Dir ''/data/20240101/sesB/all.zip'' = ''/data/20240101/sesB''"
    by (simp add: path_defs)
  have z: "isZipFile ''/data/20240101/sesB/all.zip''" by (simp add: path_defs)
  show ?thesis
    using assms by (simp add: downloadDicom_def l dr z iget_def log_def Let_def)
qed

lemma ex_bad:
  "downloadDicom gz ex_opts ''/raw/20231231/sesC/all.zip'' w =
     (Return [] (Some (PathResolutionError ''unknown path: /raw/20231231/sesC/all.zip'')), w)"
proof -
  have "\<not> sublist (opts_date ex_opts) ''/raw/20231231/sesC/all.zip''"
    by (simp add: ex_opts_def sublist_code)
  then have "downloadDicom_loc ex_opts ''/raw/20231231/sesC/all.zip'' =
      Return [] (Some (PathResolutionError (''unknown path: '' @ ''/raw/20231231/sesC/all.zip'')))"
    by (simp add: downloadDicom_loc_error)
  then show ?thesis by (simp add: downloadDicom_def)
qed

section \<open>The invariant of a worker pool\<close>

lemma finished_set_other:
  "k < length ws \<Longrightarrow> ws ! k \<noteq> Finished \<Longrightarrow> x \<noteq> Finished \<Longrightarrow>
   {j. j < length ws \<and> ws[k := x] ! j = Finished} = {j. j < length ws \<and> ws ! j = Finished}"
  by (auto simp: nth_list_update)

lemma finished_set_finish:
  "k < length ws \<Longrightarrow>
   {j. j < length ws \<and> ws[k := Finished] ! j = Finished} =
     insert k {j. j < length ws \<and> ws ! j = Finished}"
  by (auto simp: nth_list_update)

lemma card_all:
  assumes "card {j. j < n \<and> P j} = n" and "k < n"
  shows "P k"
proof -
  have "{j. j < n \<and> P j} \<subseteq> {..<n}" by auto
  moreover have "card {..<n} = n" by simp
  ultimately have "{j. j < n \<and> P j} = {..<n}"
    using assms(1) by (metis card_subset_eq finite_lessThan)
  with assms(2) show ?thesis by auto
qed

lemma card_finished_bound: "card {j. j < n \<and> P j} \<le> n"
proof -
  have "{j. j < n \<and> P j} \<subseteq> {..<n}" by auto
  then have "card {j. j < n \<and> P j} \<le> card {..<n}" by (intro card_mono) auto
  then show ?thesis by simp
qed

lemma pool_inv_all_finished:
  assumes "pool_inv W s" and "\<not> i_wait s < W" and "k < W"
  shows "workers s ! k = Finished"
proof -
  have "i_wait s = card {j. j < W \<and> workers s ! j = Finished}"
    using assms(1) by (simp add: pool_inv_def)
  moreover have "card {j. j < W \<and> workers s ! j = Finished} \<le> W"
    by (rule card_finished_bound)
  ultimately have "card {j. j < W \<and> workers s ! j = Finished} = W"
    using assms(2) by simp
  from card_all [OF this assms(3)] show ?thesis .
qed

lemma pool_inv_init: "pool_inv W (pool_init W)"
  by (simp add: pool_inv_def pool_init_def)

lemma pool_inv_step:
  assumes "step W s t" and "pool_inv W s"
  shows "pool_inv W t"
  using assms
proof (cases rule: step.cases)
  case (produce x)
  with assms(2) show ?thesis by (auto simp: pool_inv_def)
next
  case close_in
  with assms(2) show ?thesis by (auto simp: pool_inv_def)
next
  case (receive k x xs)
  have l: "length (workers s) = W" using assms(2) by (simp add: pool_inv_def)
  have "{j. j < W \<and> (workers s)[k := Working] ! j = Finished} = {j. j < W \<and> workers s ! j = Finished}"
    using finished_set_other [of k "workers s" Working] receive l by simp
  with receive assms(2) show ?thesis
    by (auto simp: pool_inv_def nth_list_update)
next
  case (receive_closed k)
  have l: "length (workers s) = W" using assms(2) by (simp add: pool_inv_def)
  have "{j. j < W \<and> (workers s)[k := Signalling] ! j = Finished} = {j. j < W \<and> workers s ! j = Finished}"
    using finished_set_other [of k "workers s" Signalling] receive_closed l by simp
  with receive_closed assms(2) show ?thesis
    by (auto simp: pool_inv_def nth_list_update)
next
  case (emit k y)
  with assms(2) show ?thesis by (auto simp: pool_inv_def)
next
  case (emit_closed k)
  have "sync_closed s" using emit_closed assms(2) by (simp add: pool_inv_def)
  then have "\<not> i_wait s < W" using assms(2) by (simp add: pool_inv_def)
  from pool_inv_all_finished [OF assms(2) this emit_closed(2)] emit_closed(3)
  show ?thesis by simp
next
  case (next_item k)
  have l: "length (workers s) = W" using assms(2) by (simp add: pool_inv_def)
  have "{j. j < W \<and> (workers s)[k := Receiving] ! j = Finished} = {j. j < W \<and> workers s ! j = Finished}"
    using finished_set_other [of k "workers s" Receiving] next_item l by simp
  with next_item assms(2) show ?thesis
    by (auto simp: pool_inv_def nth_list_update)
next
  case (signal k)
  have l: "length (workers s) = W" using assms(2) by (simp add: pool_inv_def)
  have e: "{j. j < W \<and> (workers s)[k := Finished] ! j = Finished} =
        insert k {j. j < W \<and> workers s ! j = Finished}"
    using finished_set_finish [of k "workers s"] signal l by simp
  have n: "k \<notin> {j. j < W \<and> workers s ! j = Finished}" using signal by simp
  have f: "finite {j. j < W \<and> workers s ! j = Finished}" by simp
  have c: "card {j. j < W \<and> (workers s)[k := Finished] ! j = Finished} =
        Suc (card {j. j < W \<and> workers s ! j = Finished})"
    unfolding e using n f by simp
  have ns: "\<not> sync_closed s" using signal assms(2) by (auto simp: pool_inv_def)
  then have no: "\<not> out_closed s" using assms(2) by (auto simp: pool_inv_def)
  show ?thesis
    using signal assms(2) c ns no
    by (auto simp: pool_inv_def nth_list_update)
next
  case close_sync
  have "i_wait s \<le> W" using assms(2) card_finished_bound [of W] by (simp add: pool_inv_def)
  with close_sync assms(2) show ?thesis by (auto simp: pool_inv_def)
next
  case close_out
  with assms(2) show ?thesis by (auto simp: pool_inv_def)
qed

lemma reachable_inv: "reachable W s \<Longrightarrow> pool_inv W s"
  by (induction rule: reachable.induct) (auto intro: pool_inv_init pool_inv_step)

lemma ex_pool_reachable: "reachable 2 ex_pool"
proof -
  let ?s0 = "pool_init 2 :: string pool"
  let ?s1 = "?s0\<lparr>chanIn := chanIn ?s0 @ [''/raw/20240101/sesB'']\<rparr>"
  let ?s2 = "?s1\<lparr>chanIn := [], workers := (workers ?s1)[0 := Working]\<rparr>"
  let ?s3 = "?s2\<lparr>chanOut := chanOut ?s2 @ [''/raw/20240101/sesB/all.zip'']\<rparr>"
  let ?s4 = "?s3\<lparr>workers := (workers ?s3)[0 := Receiving]\<rparr>"
  let ?s5 = "?s4\<lparr>in_closed := True\<rparr>"
  let ?s6 = "?s5\<lparr>workers := (workers ?s5)[1 := Signalling]\<rparr>"
  let ?s7 = "?s6\<lparr>workers := (workers ?s6)[0 := Signalling]\<rparr>"
  let ?s8 = "?s7\<lparr>workers := (workers ?s7)[1 := Finished], sent := (sent ?s7)[1 := sent ?s7 ! 1 + 1],
                 i_wait := i_wait ?s7 + 1\<rparr>"
  let ?s9 = "?s8\<lparr>workers := (workers ?s8)[0 := Finished], sent := (sent ?s8)[0 := sent ?s8 ! 0 + 1],
                 i_wait := i_wait ?s8 + 1\<rparr>"
  let ?s10 = "?s9\<lparr>sync_closed := True\<rparr>"
  let ?s11 = "?s10\<lparr>out_closed := True\<rparr>"
  have r0: "reachable 2 ?s0" by (rule reachable.init)
  have "step 2 ?s0 ?s1" by (rule step.produce) (simp add: pool_init_def)
  with r0 have r1: "reachable 2 ?s1" by (rule reachable.after)
  have "step 2 ?s1 ?s2"
    by (rule step.receive [of 0 2 ?s1 "''/raw/20240101/sesB''" "[]"]) (simp_all add: pool_init_def)
  with r1 have r2: "reachable 2 ?s2" by (rule reachable.after)
  have "step 2 ?s2 ?s3"
    by (rule step.emit [of 0 2 ?s2]) (simp_all add: pool_init_def)
  with r2 have r3: "reachable 2 ?s3" by (rule reachable.after)
  have "step 2 ?s3 ?s4"
    by (rule step.next_item [of 0 2 ?s3]) (simp_all add: pool_init_def)
  with r3 have r4: "reachable 2 ?s4" by (rule reachable.after)
  have "step 2 ?s4 ?s5" by (rule step.close_in) (simp add: pool_init_def)
  with r4 have r5: "reachable 2 ?s5" by (rule reachable.after)
  have "step 2 ?s5 ?s6"
    by (rule step.receive_closed [of 1 2 ?s5]) (simp_all add: pool_init_def)
  with r5 have r6: "reachable 2 ?s6" by (rule reachable.after)
  have "step 2 ?s6 ?s7"
    by (rule step.receive_closed [of 0 2 ?s6]) (simp_all add: pool_init_def)
  with r6 have r7: "reachable 2 ?s7" by (rule reachable.after)
  have "step 2 ?s7 ?s8"
    by (rule step.signal [of 1 2 ?s7]) (simp_all add: pool_init_def)
  with r7 have r8: "reachable 2 ?s8" by (rule reachable.after)
  have "step 2 ?s8 ?s9"
    by (rule step.signal [of 0 2 ?s8]) (simp_all add: pool_init_def)
  with r8 have r9: "reachable 2 ?s9" by (rule reachable.after)
  have "step 2 ?s9 ?s10" by (rule step.close_sync) (simp_all add: pool_init_def)
  with r9 have r10: "reachable 2 ?s10" by (rule reachable.after)
  have "step 2 ?s10 ?s11" by (rule step.close_out) (simp_all add: pool_init_def)
  with r10 have r11: "reachable 2 ?s11" by (rule reachable.after)
  have "?s11 = ex_pool"
    by (simp add: pool_init_def ex_pool_def numeral_2_eq_2)
  with r11 show ?thesis by simp
qed

section \<open>Properties of the program\<close>

text \<open>
  C2.  The selection of files in one collection: the lines that contain the marker
  CAT_NO_ROWS_FOUND are skipped; of the other lines, in the order of the listing, the
  loop forwards the lines with suffix .zip that come before the first line of another
  kind, and that first line of another kind when there is one, and nothing else.  An
  empty listing forwards nothing.
\<close>

theorem C2_select_files:
  "select_files ls =
     (let rows = filter (\<lambda>l. \<not> sublist ''CAT_NO_ROWS_FOUND'' l) ls
      in takeWhile (suffix ''.zip'') rows @ take 1 (dropWhile (suffix ''.zip'') rows))
   \<and> select_files [] = []"
  by (induction ls) (simp_all add: strings_Contains_iff isZipFile_iff Let_def)

text \<open>
  C5.  The local path of a remote name.  The date is a string of 8 characters
  (YYYYmmdd) and the remote name is \<open>pre @ date @ rest\<close>, this being the first place
  where the date occurs in it.  Then the local path is the root directory joined with the
  date and with \<open>rest\<close>, and when that path has the extension .IMA the file is placed one
  level up: its base name is joined to the directory of its directory.  On cleaned
  paths given by their components: when the root is \<open>/rs\<close> and \<open>rest\<close> is
  \<open>/ss/d/f\<close>, the local path is \<open>/rs/date/ss/d/f\<close>, and it is \<open>/rs/date/ss/f\<close>
  when \<open>f\<close> has the extension .IMA.  For the date 20240101, the root /data and a remote
  name that ends with 20240101/seriesX/001-foo/file.IMA the local path is
  /data/20240101/seriesX/file.IMA.
\<close>

theorem C5_local_path:
  assumes "length date = 8"
    and "path = pre @ date @ rest"
    and "\<forall>j<length pre. \<not> prefix date (drop j path)"
  shows "downloadDicom_loc \<lparr>opts_date = date, opts_ddir = root\<rparr> path =
           (let loc = filepath_Join [root, date, rest]
            in if isImaFile loc
               then Return (filepath_Join [filepath_Dir (filepath_Dir loc), filepath_Base loc]) None
               else Return loc None)
         \<and> (root = rooted_path rs \<and> rest = CHR ''/'' # strings_Join_sep (ss @ [d, f])
              \<and> list_all plain (rs @ date # ss @ [d, f]) \<longrightarrow>
              downloadDicom_loc \<lparr>opts_date = date, opts_ddir = root\<rparr> path =
                Return (rooted_path (rs @ date # ss @ (if isImaFile f then [f] else [d, f]))) None)
         \<and> (date = ''20240101'' \<and> root = ''/data'' \<and> rest = ''/seriesX/001-foo/file.IMA'' \<longrightarrow>
              downloadDicom_loc \<lparr>opts_date = date, opts_ddir = root\<rparr> path =
                Return ''/data/20240101/seriesX/file.IMA'' None)"
proof -
  have i: "strings_Index path date = int (length pre)"
    using strings_Index_first [of pre date rest] assms(2,3) by simp
  have d: "drop (nat (int (length pre) + 8)) path = rest"
    using assms(1,2) by (simp add: nat_add_distrib)
  have g: "downloadDicom_loc \<lparr>opts_date = date, opts_ddir = root\<rparr> path =
           (let loc = filepath_Join [root, date, rest]
            in if isImaFile loc
               then Return (filepath_Join [filepath_Dir (filepath_Dir loc), filepath_Base loc]) None
               else Return loc None)"
  proof -
    have lp: "\<not> int (length path) < int (length pre) + 8"
      using assms(1,2) by simp
    show ?thesis
      by (simp only: downloadDicom_loc_def opts.simps i d lp Let_def) simp
  qed
  have y: "downloadDicom_loc \<lparr>opts_date = date, opts_ddir = root\<rparr> path =
             Return (rooted_path (rs @ date # ss @ (if isImaFile f then [f] else [d, f]))) None"
    if h: "root = rooted_path rs \<and> rest = CHR ''/'' # strings_Join_sep (ss @ [d, f])
              \<and> list_all plain (rs @ date # ss @ [d, f])"
  proof -
    have p: "\<forall>c\<in>set rs. plain c" "plain date" "\<forall>c\<in>set (ss @ [d, f]). plain c"
      "\<forall>c\<in>set (rs @ date # ss). plain c" "plain d" "plain f"
      using h by (auto simp: list_all_iff)
    have j: "filepath_Join [root, date, rest] = rooted_path ((rs @ date # ss) @ [d, f])"
      using Join_rooted [OF p(1,2) _ p(3)] h by simp
    show ?thesis
      unfolding g j using relocate_rooted [OF p(4,5,6)] by simp
  qed
  have j: "filepath_Join [''/data'', ''20240101'', ''/seriesX/001-foo/file.IMA''] =
           ''/data/20240101/seriesX/001-foo/file.IMA''"
    by (simp add: filepath_Join_def filepath_Clean_def clean_step_def IsPathSeparator_def)
  have e: "isImaFile ''/data/20240101/seriesX/001-foo/file.IMA''"
    by (simp add: isImaFile_def filepath_Ext_def IsPathSeparator_def)
  have dd: "filepath_Dir (filepath_Dir ''/data/20240101/seriesX/001-foo/file.IMA'') =
            ''/data/20240101/seriesX''"
    by (simp add: filepath_Dir_def filepath_Clean_def clean_step_def IsPathSeparator_def)
  have b: "filepath_Base ''/data/20240101/seriesX/001-foo/file.IMA'' = ''file.IMA''"
    by (simp add: filepath_Base_def IsPathSeparator_def)
  have k: "filepath_Join [''/data/20240101/seriesX'', ''file.IMA''] =
           ''/data/20240101/seriesX/file.IMA''"
    by (simp add: filepath_Join_def filepath_Clean_def clean_step_def IsPathSeparator_def)
  have x: "downloadDicom_loc \<lparr>opts_date = date, opts_ddir = root\<rparr> path =
             Return ''/data/20240101/seriesX/file.IMA'' None"
    if "date = ''20240101'' \<and> root = ''/data'' \<and> rest = ''/seriesX/001-foo/file.IMA''"
    unfolding g using that by (simp add: j e dd b k Let_def)
  show ?thesis using g x y by blast
qed

theorem C5_local_path_witness:
  "list_all plain [''data'', ''20240101'', ''seriesX'', ''001-foo'', ''file.IMA'']
   \<and> isImaFile ''file.IMA''
   \<and> downloadDicom_loc \<lparr>opts_date = ''20240101'', opts_ddir = ''/data''\<rparr>
     ''/rdm/di/dccn/raw/20240101/seriesX/001-foo/file.IMA'' =
   Return (rooted_path [''data'', ''20240101'', ''seriesX'', ''file.IMA'']) None
   \<and> downloadDicom_loc \<lparr>opts_date = ''20240101'', opts_ddir = ''/data''\<rparr>
     ''/rdm/di/dccn/raw/20240101/seriesX/001-foo/file.IMA'' =
   Return ''/data/20240101/seriesX/file.IMA'' None"
proof -
  have h: "\<forall>j<length ''/rdm/di/dccn/raw/''.
      \<not> prefix ''20240101'' (drop j ''/rdm/di/dccn/raw/20240101/seriesX/001-foo/file.IMA'')"
    by (simp add: All_less_Suc)
  have p: "list_all plain [''data'', ''20240101'', ''seriesX'', ''001-foo'', ''file.IMA'']"
    by (simp add: plain_def)
  have i: "isImaFile ''file.IMA''"
    by (simp add: isImaFile_def filepath_Ext_def IsPathSeparator_def)
  note T = C5_local_path [of "''20240101''"
        "''/rdm/di/dccn/raw/20240101/seriesX/001-foo/file.IMA''" "''/rdm/di/dccn/raw/''"
        "''/seriesX/001-foo/file.IMA''" "''/data''" "[''data'']" "[''seriesX'']" "''001-foo''"
        "''file.IMA''", OF _ _ h]
  have t2: "downloadDicom_loc \<lparr>opts_date = ''20240101'', opts_ddir = ''/data''\<rparr>
      ''/rdm/di/dccn/raw/20240101/seriesX/001-foo/file.IMA'' =
      Return (rooted_path ([''data''] @ ''20240101'' # [''seriesX''] @
        (if isImaFile ''file.IMA'' then [''file.IMA''] else [''001-foo'', ''file.IMA'']))) None"
    by (rule T [THEN conjunct2, THEN conjunct1, THEN mp]) (simp_all add: rooted_path_def plain_def)
  have t3: "downloadDicom_loc \<lparr>opts_date = ''20240101'', opts_ddir = ''/data''\<rparr>
      ''/rdm/di/dccn/raw/20240101/seriesX/001-foo/file.IMA'' =
      Return ''/data/20240101/seriesX/file.IMA'' None"
    by (rule T [THEN conjunct2, THEN conjunct2, THEN mp]) simp_all
  have r: "rooted_path ([''data''] @ ''20240101'' # [''seriesX''] @
        (if isImaFile ''file.IMA'' then [''file.IMA''] else [''001-foo'', ''file.IMA''])) =
      rooted_path [''data'', ''20240101'', ''seriesX'', ''file.IMA'']"
    using i by simp
  show ?thesis using t2 [unfolded r] t3 p i by blast
qed

text \<open>
  C8.  downloadDicom returns the error of path resolution (unknown path) exactly when
  the date does not occur in the remote name.  It then returns the empty string as the
  path and leaves the environment as it was: no directory is created and nothing is
  fetched.
\<close>

theorem C8_path_resolution:
  "(\<exists>s x w'. downloadDicom gz os path w = (Return s (Some (PathResolutionError x)), w'))
     = (\<not> sublist (opts_date os) path)
   \<and> (\<not> sublist (opts_date os) path \<longrightarrow>
        downloadDicom gz os path w =
          (Return [] (Some (PathResolutionError (''unknown path: '' @ path))), w))"
proof -
  have a: "downloadDicom gz os path w =
          (Return [] (Some (PathResolutionError (''unknown path: '' @ path))), w)"
    if "\<not> sublist (opts_date os) path"
  proof -
    from that have "downloadDicom_loc os path =
        Return [] (Some (PathResolutionError (''unknown path: '' @ path)))"
      by (simp add: downloadDicom_loc_error)
    then show ?thesis by (simp add: downloadDicom_def)
  qed
  have b: "\<not> sublist (opts_date os) path"
    if h: "downloadDicom gz os path w = (Return s (Some (PathResolutionError x)), w')" for s x w'
  proof (cases "downloadDicom_loc os path")
    case Panicked
    with h show ?thesis by (simp add: downloadDicom_def)
  next
    case (Return loc eo)
    show ?thesis
    proof (cases eo)
      case None
      with Return downloadDicom_other_errors [OF _ h] show ?thesis by simp
    next
      case (Some e)
      with Return show ?thesis by (simp add: downloadDicom_loc_error)
    qed
  qed
  from a b show ?thesis by blast
qed

theorem C8_path_resolution_witness:
  "\<not> sublist ''20240101'' ''/rdm/di/dccn/raw/20231231/s/001-x/f.IMA'' \<and>
   downloadDicom (\<lambda>b. None) \<lparr>opts_date = ''20240101'', opts_ddir = ''/data''\<rparr>
     ''/rdm/di/dccn/raw/20231231/s/001-x/f.IMA''
     \<lparr>fs = Map.empty, umask = 18, irods = (\<lambda>p. Fetched ''x''), logs = []\<rparr> =
   (Return [] (Some (PathResolutionError ''unknown path: /rdm/di/dccn/raw/20231231/s/001-x/f.IMA'')),
    \<lparr>fs = Map.empty, umask = 18, irods = (\<lambda>p. Fetched ''x''), logs = []\<rparr>)"
  using C8_path_resolution [of "\<lambda>b. None" "\<lparr>opts_date = ''20240101'', opts_ddir = ''/data''\<rparr>"
      "''/rdm/di/dccn/raw/20231231/s/001-x/f.IMA''"
      "\<lparr>fs = Map.empty, umask = 18, irods = (\<lambda>p. Fetched ''x''), logs = []\<rparr>"]
  by (simp add: sublist_code)

text \<open>
  C1, as amended.  The deduplicator forwards a session at most once, the session key being
  the parent directory of the name (filepath.Dir).  Whatever the events of the scan are,
  among the names sent on \<open>chanColls\<close> at most one matches the series pattern and has a
  given parent directory.
  The names sent are names read from the standard output, unchanged and in their order.
  A name that matches the pattern and whose key is marked in \<open>collMap\<close> changes nothing:
  no value is sent and no error is logged.  A name that does not match the pattern is
  sent whatever \<open>collMap\<close> holds.
\<close>

theorem C1_at_most_once:
  "length (filter (\<lambda>n. match_series n \<and> filepath_Dir n = k) (chanColls (scan_loop es scan_init))) \<le> 1
   \<and> subseq (chanColls (scan_loop es scan_init)) (stdout_lines es)
   \<and> (match_series line \<and> visited (collMap s) (filepath_Dir line) \<longrightarrow>
        scan_loop (Stdout line # es) s = scan_loop es s)
   \<and> (\<not> match_series line \<longrightarrow>
        scan_loop (Stdout line # es) s = scan_loop es (s\<lparr>chanColls := chanColls s @ [line]\<rparr>))"
proof -
  have "scan_inv scan_init" by (simp add: scan_inv_def scan_init_def)
  then have "scan_inv (scan_loop es scan_init)" by (rule scan_inv_loop)
  then have a: "length (filter (\<lambda>n. match_series n \<and> filepath_Dir n = k)
      (chanColls (scan_loop es scan_init))) \<le> 1"
    by (simp add: scan_inv_def)
  have b: "subseq (chanColls (scan_loop es scan_init)) (stdout_lines es)"
    using scan_loop_subseq [of es scan_init] by (simp add: scan_init_def)
  show ?thesis using a b by simp
qed

theorem C1_at_most_once_witness:
  "length (filter (\<lambda>n. match_series n \<and> filepath_Dir n = ''/raw/20240101/sessionA'')
     (chanColls (scan_loop [Stdout ''/raw/20240101/sessionA/002-t1'', Stdout ''/raw/20240101/sessionB'']
        scan_init))) \<le> 1
   \<and> match_series ''/raw/20240101/sessionA/002-t1''
   \<and> visited [''/raw/20240101/sessionA'' \<mapsto> True] (filepath_Dir ''/raw/20240101/sessionA/002-t1'')
   \<and> scan_loop [Stdout ''/raw/20240101/sessionA/002-t1'', Stdout ''/raw/20240101/sessionB'']
        (scan_init\<lparr>collMap := [''/raw/20240101/sessionA'' \<mapsto> True],
                    chanColls := [''/raw/20240101/sessionA/001-localizer'']\<rparr>)
      = scan_loop [Stdout ''/raw/20240101/sessionB'']
        (scan_init\<lparr>collMap := [''/raw/20240101/sessionA'' \<mapsto> True],
                    chanColls := [''/raw/20240101/sessionA/001-localizer'']\<rparr>)"
  using C1_at_most_once [of "''/raw/20240101/sessionA''"
      "[Stdout ''/raw/20240101/sessionB'']" "''/raw/20240101/sessionA/002-t1''"
      "scan_init\<lparr>collMap := [''/raw/20240101/sessionA'' \<mapsto> True],
                  chanColls := [''/raw/20240101/sessionA/001-localizer'']\<rparr>"]
    C1_at_most_once [of "''/raw/20240101/sessionA''"
      "[Stdout ''/raw/20240101/sessionA/002-t1'', Stdout ''/raw/20240101/sessionB'']"]
  by (simp add: visited_def is_digit_def filepath_Dir_def
        filepath_Clean_def clean_step_def IsPathSeparator_def)

text \<open>
  C1, as stated, fails for the session key of the design, the parent-of-parent directory
  (as a path or as its last component): the names of two series of two sessions of the
  same date match the series pattern and have the same key, and both are forwarded.
\<close>

theorem C1_session_key_counterexample:
  "match_series ''/rdm/di/dccn/raw/20240101/sessionA/001-localizer''
   \<and> match_series ''/rdm/di/dccn/raw/20240101/sessionB/002-t1''
   \<and> parent_of_parent ''/rdm/di/dccn/raw/20240101/sessionA/001-localizer'' =
       parent_of_parent ''/rdm/di/dccn/raw/20240101/sessionB/002-t1''
   \<and> parent_of_parent_component ''/rdm/di/dccn/raw/20240101/sessionA/001-localizer'' =
       parent_of_parent_component ''/rdm/di/dccn/raw/20240101/sessionB/002-t1''
   \<and> chanColls (scan_loop
        [Stdout ''/rdm/di/dccn/raw/20240101/sessionA/001-localizer'',
         Stdout ''/rdm/di/dccn/raw/20240101/sessionB/002-t1''] scan_init) =
       [''/rdm/di/dccn/raw/20240101/sessionA/001-localizer'',
        ''/rdm/di/dccn/raw/20240101/sessionB/002-t1'']"
  by (simp add: scan_init_def visited_def is_digit_def filepath_Dir_def filepath_Base_def
        filepath_Clean_def clean_step_def IsPathSeparator_def parent_of_parent_def
        parent_of_parent_component_def)

text \<open>
  C6, as amended.  The session key of a name that matches the series pattern is the
  parent directory of the name (filepath.Dir of the name): on every sequence of names
  the loop sends what the contract of the deduplicator gives for that key.
\<close>

theorem C6_key_is_parent:
  "chanColls (scan_loop (map Stdout ns) scan_init) = spec_dedup filepath_Dir {} ns"
  using scan_loop_spec [of ns scan_init] by (simp add: scan_init_def visited_def)

text \<open>
  C6, as stated, fails.  Two series of two sessions of the same date have the same
  parent of the parent directory; the code forwards both names, and the contract with
  the parent of the parent as the key (the path, or its last component) forwards one.
\<close>

theorem C6_parent_of_parent_counterexample:
  "chanColls (scan_loop (map Stdout
       [''/rdm/di/dccn/raw/20240101/sessionA/001-localizer'',
        ''/rdm/di/dccn/raw/20240101/sessionB/001-localizer'']) scan_init)
     \<noteq> spec_dedup parent_of_parent {}
       [''/rdm/di/dccn/raw/20240101/sessionA/001-localizer'',
        ''/rdm/di/dccn/raw/20240101/sessionB/001-localizer'']
   \<and> chanColls (scan_loop (map Stdout
       [''/rdm/di/dccn/raw/20240101/sessionA/001-localizer'',
        ''/rdm/di/dccn/raw/20240101/sessionB/001-localizer'']) scan_init)
     \<noteq> spec_dedup parent_of_parent_component {}
       [''/rdm/di/dccn/raw/20240101/sessionA/001-localizer'',
        ''/rdm/di/dccn/raw/20240101/sessionB/001-localizer'']"
  by (simp add: scan_init_def visited_def is_digit_def filepath_Dir_def filepath_Base_def
        filepath_Clean_def clean_step_def IsPathSeparator_def parent_of_parent_def
        parent_of_parent_component_def)

text \<open>
  C3, as amended.  Extraction of an archive whose entries are a directory, a regular
  file A and a regular file B, A being read without error.  The destination is the
  directory of the archive joined with the base name of A.  DicomExtractorTgz.Extract, on
  a world where the archive is at \<open>loc\<close> and nothing is at the destination, returns the
  destination and changes the file system in exactly two places: the destination holds
  the bytes of A, with the mode bits of A that the file mode creation mask of the process
  does not clear, and the archive is removed.  downloadDicom, when the fetch of the
  archive succeeds, nothing is at the destination and the destination is neither the
  archive nor the companion file cmd.sh, returns the destination, which holds the bytes of
  A with the same mode; the archive is removed, and no other path but that of cmd.sh is
  changed.  Nothing of B is written.
\<close>

theorem C3_extraction:
  assumes "gz bytes = Some [Entry d bd ed, Entry a ba False, Entry b bb eb]"
    and "Typeflag d = TypeDir" and "Typeflag a = TypeReg" and "Typeflag b = TypeReg"
    and "dest = filepath_Join [filepath_Dir loc, filepath_Base (Name a)]"
  shows "(fs w loc = Some (File bytes m0) \<and> fs w dest = None \<longrightarrow>
            Extract gz DicomExtractorTgz loc w =
              (Return dest None,
               w\<lparr>logs := logs w @ [(DebugLevel, ''DICOM file extracted: '' @ dest)],
                  fs := ((fs w)(dest \<mapsto> File ba (syscallMode (ucast (Mode a)) AND NOT (umask w))))
                          (loc := None)\<rparr>))
       \<and> (downloadDicom_loc os path = Return loc None \<and> \<not> isZipFile loc \<and> \<not> isImaFile loc
            \<and> os_MkdirAll (filepath_Dir loc) (fs w) = Some f1 \<and> irods w path = Fetched bytes
            \<and> f1 dest = None \<and> dest \<noteq> loc \<and> dest \<noteq> filepath_Join [filepath_Dir loc, ''cmd.sh''] \<longrightarrow>
            fst (downloadDicom gz os path w) = Return dest None
            \<and> fs (snd (downloadDicom gz os path w)) dest =
                Some (File ba (syscallMode (ucast (Mode a)) AND NOT (umask w)))
            \<and> fs (snd (downloadDicom gz os path w)) loc = None
            \<and> (\<forall>p. p \<noteq> dest \<and> p \<noteq> loc \<and> p \<noteq> filepath_Join [filepath_Dir loc, ''cmd.sh'']
                   \<longrightarrow> fs (snd (downloadDicom gz os path w)) p = f1 p))"
proof (intro conjI impI)
  assume h: "fs w loc = Some (File bytes m0) \<and> fs w dest = None"
  then have ne: "dest \<noteq> loc" by auto
  have "Extract gz DicomExtractorTgz loc w =
    (case Extract_loop [Entry d bd ed, Entry a ba False, Entry b bb eb] loc (filepath_Dir loc) w of
       (r, w3) \<Rightarrow> (r, w3\<lparr>fs := (fs w3)(loc := None)\<rparr>))"
    using Extract_archive [of w loc bytes m0 gz] h assms(1) by blast
  then show "Extract gz DicomExtractorTgz loc w =
              (Return dest None,
               w\<lparr>logs := logs w @ [(DebugLevel, ''DICOM file extracted: '' @ dest)],
                  fs := ((fs w)(dest \<mapsto> File ba (syscallMode (ucast (Mode a)) AND NOT (umask w))))
                          (loc := None)\<rparr>)"
    using h assms(2,3) assms(5) [symmetric] TypeReg_neq_TypeDir
    by (simp add: Let_def copyReaderToPath_def os_OpenFile_def file_Write_def log_def
          os_FileMode_def)
next
  assume h: "downloadDicom_loc os path = Return loc None \<and> \<not> isZipFile loc \<and> \<not> isImaFile loc
            \<and> os_MkdirAll (filepath_Dir loc) (fs w) = Some f1 \<and> irods w path = Fetched bytes
            \<and> f1 dest = None \<and> dest \<noteq> loc \<and> dest \<noteq> filepath_Join [filepath_Dir loc, ''cmd.sh'']"
  let ?cmd = "filepath_Join [filepath_Dir loc, ''cmd.sh'']"
  let ?w2 = "w\<lparr>logs := logs w @ [(DebugLevel, path @ '' -> '' @ loc @ [CHR 0x0A])],
               fs := f1(loc \<mapsto> File bytes 420)\<rparr>"
  have dd: "downloadDicom gz os path w =
    (case downloadDicom_loop [Entry d bd ed, Entry a ba False, Entry b bb eb] path loc
            (filepath_Dir loc) ?w2 of
       (r, w3) \<Rightarrow> (r, w3\<lparr>fs := (fs w3)(loc := None)\<rparr>))"
    using downloadDicom_archive [of os path loc w f1 bytes gz] h assms(1) by blast
  have fr: "fs ?w2 dest = None" using h by simp
  have um: "umask ?w2 = umask w" by simp
  have s1: "downloadDicom_loop [Entry d bd ed, Entry a ba False, Entry b bb eb] path loc
              (filepath_Dir loc) ?w2 =
            downloadDicom_loop [Entry a ba False, Entry b bb eb] path loc (filepath_Dir loc) ?w2"
    by (rule downloadDicom_loop_directory [OF assms(2)])
  have ne: "dest \<noteq> ?cmd" using h by simp
  have lp: "fst (downloadDicom_loop [Entry d bd ed, Entry a ba False, Entry b bb eb] path loc
            (filepath_Dir loc) ?w2) = Return dest None
      \<and> fs (snd (downloadDicom_loop [Entry d bd ed, Entry a ba False, Entry b bb eb] path loc
            (filepath_Dir loc) ?w2)) dest =
          Some (File ba (syscallMode (ucast (Mode a)) AND NOT (umask ?w2)))
      \<and> (\<forall>p. p \<noteq> dest \<and> p \<noteq> ?cmd \<longrightarrow>
           fs (snd (downloadDicom_loop [Entry d bd ed, Entry a ba False, Entry b bb eb] path loc
            (filepath_Dir loc) ?w2)) p = fs ?w2 p)"
    unfolding s1
    by (rule downloadDicom_loop_regular [OF assms(3) fr assms(5) ne])
  obtain r w3 where lw: "downloadDicom_loop [Entry d bd ed, Entry a ba False, Entry b bb eb] path loc
            (filepath_Dir loc) ?w2 = (r, w3)"
    by (cases "downloadDicom_loop [Entry d bd ed, Entry a ba False, Entry b bb eb] path loc
            (filepath_Dir loc) ?w2")
  have q: "r = Return dest None"
    "fs w3 dest = Some (File ba (syscallMode (ucast (Mode a)) AND NOT (umask w)))"
    "\<forall>p. p \<noteq> dest \<and> p \<noteq> ?cmd \<longrightarrow> fs w3 p = fs ?w2 p"
    using lp unfolding lw um by simp_all
  have dd': "downloadDicom gz os path w = (r, w3\<lparr>fs := (fs w3)(loc := None)\<rparr>)"
    unfolding dd lw by simp
  show "fst (downloadDicom gz os path w) = Return dest None"
    unfolding dd' using q(1) by simp
  show "fs (snd (downloadDicom gz os path w)) dest =
      Some (File ba (syscallMode (ucast (Mode a)) AND NOT (umask w)))"
    unfolding dd' using q(2) h by simp
  show "fs (snd (downloadDicom gz os path w)) loc = None"
    unfolding dd' by simp
  show "\<forall>p. p \<noteq> dest \<and> p \<noteq> loc \<and> p \<noteq> ?cmd \<longrightarrow> fs (snd (downloadDicom gz os path w)) p = f1 p"
    unfolding dd' using q(3) by simp
qed

theorem C3_extraction_witness:
  "ex_gz ''TGZ1'' = Some ex_tar
   \<and> Extract ex_gz DicomExtractorTgz ''/data/20240101/sesA/001-localizer/s.tar.gz'' (ex_world ''TGZ1'') =
       (Return ''/data/20240101/sesA/001-localizer/00001.IMA'' None,
        (ex_world ''TGZ1'')
          \<lparr>logs := [(DebugLevel, ''DICOM file extracted: /data/20240101/sesA/001-localizer/00001.IMA'')],
           fs := [''/data/20240101/sesA/001-localizer'' \<mapsto> Directory,
                  ''/data/20240101/sesA/001-localizer/00001.IMA'' \<mapsto> File ''DICM-A'' 420]\<rparr>)
   \<and> fst (downloadDicom ex_gz ex_opts ''/raw/20240101/sesA/001-localizer/s.tar.gz'' (ex_world ''TGZ1'')) =
       Return ''/data/20240101/sesA/001-localizer/00001.IMA'' None
   \<and> fs (snd (downloadDicom ex_gz ex_opts ''/raw/20240101/sesA/001-localizer/s.tar.gz'' (ex_world ''TGZ1'')))
        ''/data/20240101/sesA/001-localizer/00001.IMA'' = Some (File ''DICM-A'' 420)
   \<and> fs (snd (downloadDicom ex_gz ex_opts ''/raw/20240101/sesA/001-localizer/s.tar.gz'' (ex_world ''TGZ1'')))
        ''/data/20240101/sesA/001-localizer/s.tar.gz'' = None"
proof -
  have g: "ex_gz ''TGZ1'' =
    Some [Entry \<lparr>Typeflag = TypeDir, Name = ''001-localizer/'', Mode = 493\<rparr> [] False,
      Entry \<lparr>Typeflag = TypeReg, Name = ''001-localizer/00001.IMA'', Mode = 438\<rparr> ''DICM-A'' False,
      Entry \<lparr>Typeflag = TypeReg, Name = ''001-localizer/00002.IMA'', Mode = 420\<rparr> ''DICM-B'' False]"
    by (simp add: ex_gz_def ex_tar_def)
  have g': "ex_gz ''TGZ1'' = Some ex_tar" by (simp add: ex_gz_def)
  have m: "os_MkdirAll (filepath_Dir ''/data/20240101/sesA/001-localizer/s.tar.gz'') (fs (ex_world ''TGZ1''))
      = Some (fs (ex_world ''TGZ1''))"
    unfolding ex_dir by (rule ex_mkdir)
  have f: "fs (ex_world ''TGZ1'') ''/data/20240101/sesA/001-localizer/s.tar.gz'' = Some (File ''TGZ1'' 420)"
    "fs (ex_world ''TGZ1'') ''/data/20240101/sesA/001-localizer/00001.IMA'' = None"
    by (simp_all add: ex_world_def)
  have i: "irods (ex_world ''TGZ1'') ''/raw/20240101/sesA/001-localizer/s.tar.gz'' = Fetched ''TGZ1''"
    by (simp add: ex_world_def)
  have c: "filepath_Join [''/data/20240101/sesA/001-localizer'', ''cmd.sh''] =
      ''/data/20240101/sesA/001-localizer/cmd.sh''"
    by (simp add: path_defs)
  have md: "syscallMode 438 AND NOT (umask (ex_world ''TGZ1'')) = 420"
    by (simp add: syscallMode_def ex_world_def)
  have r: "((fs (ex_world ''TGZ1''))(''/data/20240101/sesA/001-localizer/00001.IMA'' \<mapsto>
               File ''DICM-A'' 420))
            (''/data/20240101/sesA/001-localizer/s.tar.gz'' := None) =
        [''/data/20240101/sesA/001-localizer'' \<mapsto> Directory,
         ''/data/20240101/sesA/001-localizer/00001.IMA'' \<mapsto> File ''DICM-A'' 420]"
    by (auto simp: ex_world_def)
  have l: "logs (ex_world ''TGZ1'') = []" by (simp add: ex_world_def)
  show ?thesis
    using C3_extraction [of ex_gz "''TGZ1''"
        "\<lparr>Typeflag = TypeDir, Name = ''001-localizer/'', Mode = 493\<rparr>" "[]" False
        "\<lparr>Typeflag = TypeReg, Name = ''001-localizer/00001.IMA'', Mode = 438\<rparr>" "''DICM-A''"
        "\<lparr>Typeflag = TypeReg, Name = ''001-localizer/00002.IMA'', Mode = 420\<rparr>" "''DICM-B''" False
        "''/data/20240101/sesA/001-localizer/00001.IMA''"
        "''/data/20240101/sesA/001-localizer/s.tar.gz''"
        "ex_world ''TGZ1''" 420 ex_opts
        "''/raw/20240101/sesA/001-localizer/s.tar.gz''" "fs (ex_world ''TGZ1'')"]
      g g' m f i ex_loc ex_kind
    by (simp add: ex_dir ex_dest c md r l)
qed

text \<open>
  C3, as stated, fails, in three ways.  With the file mode creation mask 022 the file
  extracted from an entry of mode 0666 has the mode 0644, which is not the mode of the
  entry.  When a longer file is already at the destination, the destination holds
  afterwards the bytes of A followed by the end of the old file, with the old mode, the
  file being opened without truncation.  In downloadDicom, when A is named cmd.sh, the
  companion file is written over the file extracted, which then holds the
  synchronisation command and not the bytes of A.
\<close>

theorem C3_as_stated_counterexample:
  "Mode \<lparr>Typeflag = TypeReg, Name = ''001-localizer/00001.IMA'', Mode = 438\<rparr> = 438
   \<and> fs (snd (Extract ex_gz DicomExtractorTgz ''/data/20240101/sesA/001-localizer/s.tar.gz''
        (ex_world ''TGZ1''))) ''/data/20240101/sesA/001-localizer/00001.IMA'' =
       Some (File ''DICM-A'' 420)
   \<and> fs (snd (Extract ex_gz DicomExtractorTgz ''/data/20240101/sesA/001-localizer/s.tar.gz''
        (ex_world ''TGZ1''))) ''/data/20240101/sesA/001-localizer/00001.IMA'' \<noteq>
       Some (File ''DICM-A'' (os_FileMode 438))
   \<and> fs (snd (Extract ex_gz DicomExtractorTgz ''/data/20240101/sesA/001-localizer/s.tar.gz''
        ((ex_world ''TGZ1'')\<lparr>fs := (fs (ex_world ''TGZ1''))
           (''/data/20240101/sesA/001-localizer/00001.IMA'' \<mapsto> File ''DICM-OLD-LONGER'' 384)\<rparr>)))
        ''/data/20240101/sesA/001-localizer/00001.IMA'' =
       Some (File ''DICM-ALD-LONGER'' 384)
   \<and> fst (downloadDicom ex_gz ex_opts ''/raw/20240101/sesA/001-localizer/s.tar.gz'' (ex_world ''TGZ4'')) =
       Return ''/data/20240101/sesA/001-localizer/cmd.sh'' None
   \<and> fs (snd (downloadDicom ex_gz ex_opts ''/raw/20240101/sesA/001-localizer/s.tar.gz''
        (ex_world ''TGZ4''))) ''/data/20240101/sesA/001-localizer/cmd.sh'' =
       Some (File ''irsync -r i:/raw/20240101/sesA/001-localizer /data/20240101/sesA/001-localizer'' 493)"
proof -
  have g1: "ex_gz ''TGZ1'' = Some ex_tar" by (simp add: ex_gz_def)
  have g4: "ex_gz ''TGZ4'' = Some ex_cmd" by (simp add: ex_gz_def)
  have a: "fs (snd (Extract ex_gz DicomExtractorTgz ''/data/20240101/sesA/001-localizer/s.tar.gz''
        (ex_world ''TGZ1''))) ''/data/20240101/sesA/001-localizer/00001.IMA'' =
       Some (File ''DICM-A'' 420)"
    by (simp add: os_Open_def gzip_NewReader_def copyReaderToPath_def os_OpenFile_def
          os_Remove_def file_Write_def log_def os_FileMode_def syscallMode_def g1 ex_dir
          ex_tar_def TypeReg_neq_TypeDir ex_dest Let_def ex_world_def)
  have b: "fs (snd (Extract ex_gz DicomExtractorTgz ''/data/20240101/sesA/001-localizer/s.tar.gz''
        ((ex_world ''TGZ1'')\<lparr>fs := (fs (ex_world ''TGZ1''))
           (''/data/20240101/sesA/001-localizer/00001.IMA'' \<mapsto> File ''DICM-OLD-LONGER'' 384)\<rparr>)))
        ''/data/20240101/sesA/001-localizer/00001.IMA'' =
       Some (File ''DICM-ALD-LONGER'' 384)"
    by (simp add: os_Open_def gzip_NewReader_def copyReaderToPath_def os_OpenFile_def
          os_Remove_def file_Write_def log_def os_FileMode_def syscallMode_def g1 ex_dir
          ex_tar_def TypeReg_neq_TypeDir ex_dest Let_def ex_world_def)
  have dc: "filepath_Join [''/data/20240101/sesA/001-localizer'', filepath_Base ''001-localizer/cmd.sh'']
      = ''/data/20240101/sesA/001-localizer/cmd.sh''"
    by (simp add: path_defs)
  have c: "filepath_Join [''/data/20240101/sesA/001-localizer'', ''cmd.sh''] =
      ''/data/20240101/sesA/001-localizer/cmd.sh''"
    by (simp add: path_defs)
  have dp: "filepath_Dir ''/raw/20240101/sesA/001-localizer/s.tar.gz'' =
      ''/raw/20240101/sesA/001-localizer''"
    by (simp add: path_defs)
  have m: "os_MkdirAll (filepath_Dir ''/data/20240101/sesA/001-localizer/s.tar.gz'') (fs (ex_world ''TGZ4''))
      = Some (fs (ex_world ''TGZ4''))"
    unfolding ex_dir by (rule ex_mkdir)
  have i: "irods (ex_world ''TGZ4'') ''/raw/20240101/sesA/001-localizer/s.tar.gz'' = Fetched ''TGZ4''"
    by (simp add: ex_world_def)
  have dd: "downloadDicom ex_gz ex_opts ''/raw/20240101/sesA/001-localizer/s.tar.gz'' (ex_world ''TGZ4'') =
    (case downloadDicom_loop ex_cmd ''/raw/20240101/sesA/001-localizer/s.tar.gz''
            ''/data/20240101/sesA/001-localizer/s.tar.gz''
            (filepath_Dir ''/data/20240101/sesA/001-localizer/s.tar.gz'')
            ((ex_world ''TGZ4'')\<lparr>logs := logs (ex_world ''TGZ4'') @
                [(DebugLevel, ''/raw/20240101/sesA/001-localizer/s.tar.gz'' @ '' -> '' @
                   ''/data/20240101/sesA/001-localizer/s.tar.gz'' @ [CHR 0x0A])],
               fs := (fs (ex_world ''TGZ4''))
                  (''/data/20240101/sesA/001-localizer/s.tar.gz'' \<mapsto> File ''TGZ4'' 420)\<rparr>) of
       (r, w3) \<Rightarrow> (r, w3\<lparr>fs := (fs w3)(''/data/20240101/sesA/001-localizer/s.tar.gz'' := None)\<rparr>))"
    using downloadDicom_archive [of ex_opts "''/raw/20240101/sesA/001-localizer/s.tar.gz''"
        "''/data/20240101/sesA/001-localizer/s.tar.gz''" "ex_world ''TGZ4''"
        "fs (ex_world ''TGZ4'')" "''TGZ4''" ex_gz ex_cmd] ex_loc ex_kind m i g4
    by simp
  have d: "fst (downloadDicom ex_gz ex_opts ''/raw/20240101/sesA/001-localizer/s.tar.gz'' (ex_world ''TGZ4'')) =
       Return ''/data/20240101/sesA/001-localizer/cmd.sh'' None
     \<and> fs (snd (downloadDicom ex_gz ex_opts ''/raw/20240101/sesA/001-localizer/s.tar.gz''
        (ex_world ''TGZ4''))) ''/data/20240101/sesA/001-localizer/cmd.sh'' =
       Some (File ''irsync -r i:/raw/20240101/sesA/001-localizer /data/20240101/sesA/001-localizer'' 493)"
    unfolding dd
    by (simp add: copyReaderToPath_def os_OpenFile_def makeDownloadCmd_def
          file_Write_def log_def os_FileMode_def syscallMode_def ex_dir dp
          ex_cmd_def TypeReg_neq_TypeDir dc c Let_def ex_world_def)
  have n: "(420 :: FileMode) \<noteq> os_FileMode 438" by (simp add: os_FileMode_def)
  show ?thesis using a b d n by simp
qed

text \<open>
  C7.  An archive with no regular file before the end of the stream.  Both
  DicomExtractorTgz.Extract and downloadDicom return the error of an empty archive with
  the empty string as the path, and write no file: the file system after the call is
  the one before it (for downloadDicom: after the directory is made) without the
  archive.
\<close>

theorem C7_empty_archive:
  assumes "gz bytes = Some tr" and "no_regular tr"
  shows "(fs w loc = Some (File bytes m0) \<longrightarrow>
            Extract gz DicomExtractorTgz loc w =
              (Return [] (Some (EmptyArchiveError (''empty archive: '' @ loc))),
               w\<lparr>fs := (fs w)(loc := None)\<rparr>))
       \<and> (downloadDicom_loc os path = Return loc None \<and> \<not> isZipFile loc \<and> \<not> isImaFile loc
            \<and> os_MkdirAll (filepath_Dir loc) (fs w) = Some f1 \<and> irods w path = Fetched bytes \<longrightarrow>
            downloadDicom gz os path w =
              (Return [] (Some (EmptyArchiveError (''empty archive: '' @ loc))),
               w\<lparr>fs := f1(loc := None),
                  logs := logs w @ [(DebugLevel, path @ '' -> '' @ loc @ [CHR 0x0A])]\<rparr>))"
proof (intro conjI impI)
  assume "fs w loc = Some (File bytes m0)"
  from Extract_archive [of w loc bytes m0 gz tr] this assms(1) show "Extract gz DicomExtractorTgz loc w =
              (Return [] (Some (EmptyArchiveError (''empty archive: '' @ loc))),
               w\<lparr>fs := (fs w)(loc := None)\<rparr>)"
    by (simp add: Extract_loop_no_regular [OF assms(2)])
next
  assume h: "downloadDicom_loc os path = Return loc None \<and> \<not> isZipFile loc \<and> \<not> isImaFile loc
            \<and> os_MkdirAll (filepath_Dir loc) (fs w) = Some f1 \<and> irods w path = Fetched bytes"
  then have "downloadDicom gz os path w =
    (case downloadDicom_loop tr path loc (filepath_Dir loc)
            (w\<lparr>logs := logs w @ [(DebugLevel, path @ '' -> '' @ loc @ [CHR 0x0A])],
               fs := f1(loc \<mapsto> File bytes 420)\<rparr>) of
       (r, w3) \<Rightarrow> (r, w3\<lparr>fs := (fs w3)(loc := None)\<rparr>))"
    using downloadDicom_archive [of os path loc w f1 bytes gz tr] assms(1) by blast
  then show "downloadDicom gz os path w =
              (Return [] (Some (EmptyArchiveError (''empty archive: '' @ loc))),
               w\<lparr>fs := f1(loc := None),
                  logs := logs w @ [(DebugLevel, path @ '' -> '' @ loc @ [CHR 0x0A])]\<rparr>)"
    by (simp add: downloadDicom_loop_no_regular [OF assms(2)])
qed

theorem C7_empty_archive_witness:
  "ex_gz ''TGZ2'' = Some ex_dirs \<and> no_regular ex_dirs
   \<and> Extract ex_gz DicomExtractorTgz ''/data/20240101/sesA/001-localizer/s.tar.gz'' (ex_world ''TGZ2'') =
       (Return [] (Some (EmptyArchiveError ''empty archive: /data/20240101/sesA/001-localizer/s.tar.gz'')),
        (ex_world ''TGZ2'')\<lparr>fs := (fs (ex_world ''TGZ2''))(''/data/20240101/sesA/001-localizer/s.tar.gz'' := None)\<rparr>)
   \<and> fst (downloadDicom ex_gz ex_opts ''/raw/20240101/sesA/001-localizer/s.tar.gz'' (ex_world ''TGZ2'')) =
       Return [] (Some (EmptyArchiveError ''empty archive: /data/20240101/sesA/001-localizer/s.tar.gz''))
   \<and> fs (snd (downloadDicom ex_gz ex_opts ''/raw/20240101/sesA/001-localizer/s.tar.gz'' (ex_world ''TGZ2''))) =
       [''/data/20240101/sesA/001-localizer'' \<mapsto> Directory]"
proof -
  have g: "ex_gz ''TGZ2'' = Some ex_dirs" by (simp add: ex_gz_def)
  have n: "no_regular ex_dirs" by (simp add: ex_dirs_def TypeReg_def TypeDir_def)
  have m: "os_MkdirAll (filepath_Dir ''/data/20240101/sesA/001-localizer/s.tar.gz'') (fs (ex_world ''TGZ2''))
      = Some (fs (ex_world ''TGZ2''))"
    unfolding ex_dir by (rule ex_mkdir)
  have f: "fs (ex_world ''TGZ2'') ''/data/20240101/sesA/001-localizer/s.tar.gz'' = Some (File ''TGZ2'' 420)"
    by (simp add: ex_world_def)
  have i: "irods (ex_world ''TGZ2'') ''/raw/20240101/sesA/001-localizer/s.tar.gz'' = Fetched ''TGZ2''"
    by (simp add: ex_world_def)
  have r: "(fs (ex_world ''TGZ2''))(''/data/20240101/sesA/001-localizer/s.tar.gz'' := None) =
      [''/data/20240101/sesA/001-localizer'' \<mapsto> Directory]"
    by (auto simp: ex_world_def)
  show ?thesis
    using C7_empty_archive [of ex_gz "''TGZ2''" ex_dirs "ex_world ''TGZ2''"
        "''/data/20240101/sesA/001-localizer/s.tar.gz''" 420 ex_opts
        "''/raw/20240101/sesA/001-localizer/s.tar.gz''" "fs (ex_world ''TGZ2'')"]
      g n m f i ex_loc ex_kind
    by (simp add: r)
qed

text \<open>
  C9.  A worker of the retrieval pool that has handled the names \<open>xs\<close> without a panic
  and then gets from downloadDicom an error for the name \<open>f\<close>: it sends nothing for
  \<open>f\<close>, logs the error, and goes on with the remaining names \<open>ys\<close> as a worker that
  starts on them.
\<close>

theorem C9_error_isolation:
  assumes "download_worker gz os xs w = ((out1, True), w1)"
    and "downloadDicom gz os f w1 = (Return s (Some err), w2)"
  shows "download_worker gz os (xs @ f # ys) w =
           (case download_worker gz os ys (log ErrorLevel (msg err) w2) of
              ((out2, ok), w3) \<Rightarrow> ((out1 @ out2, ok), w3))"
  using download_worker_append [OF assms(1), of "f # ys"] assms(2) by simp

theorem C9_error_isolation_witness:
  "fst (download_worker ex_gz ex_opts [''/raw/20240101/sesB/all.zip''] (ex_world ''TGZ1'')) =
     ([''/data/20240101/sesB/all.zip''], True)
   \<and> fst (downloadDicom ex_gz ex_opts ''/raw/20231231/sesC/all.zip''
        (snd (download_worker ex_gz ex_opts [''/raw/20240101/sesB/all.zip''] (ex_world ''TGZ1'')))) =
     Return [] (Some (PathResolutionError ''unknown path: /raw/20231231/sesC/all.zip''))
   \<and> fst (download_worker ex_gz ex_opts
        [''/raw/20240101/sesB/all.zip'', ''/raw/20231231/sesC/all.zip'', ''/raw/20240101/sesB/all.zip'']
        (ex_world ''TGZ1'')) =
     ([''/data/20240101/sesB/all.zip'', ''/data/20240101/sesB/all.zip''], True)
   \<and> (ErrorLevel, ''unknown path: /raw/20231231/sesC/all.zip'') \<in> set (logs (snd (download_worker ex_gz ex_opts
        [''/raw/20240101/sesB/all.zip'', ''/raw/20231231/sesC/all.zip'', ''/raw/20240101/sesB/all.zip'']
        (ex_world ''TGZ1''))))"
proof -
  let ?W = "ex_world ''TGZ1''"
  let ?f1 = "(fs ?W)(''/data'' \<mapsto> Directory, ''/data/20240101'' \<mapsto> Directory,
                ''/data/20240101/sesB'' \<mapsto> Directory)"
  let ?W1 = "?W\<lparr>logs := logs ?W @
          [(DebugLevel, ''/raw/20240101/sesB/all.zip -> /data/20240101/sesB/all.zip'' @ [CHR 0x0A])],
       fs := ?f1(''/data/20240101/sesB/all.zip'' \<mapsto> File ''PK'' 420)\<rparr>"
  let ?W2 = "log ErrorLevel (msg (PathResolutionError ''unknown path: /raw/20231231/sesC/all.zip'')) ?W1"
  let ?f2 = "fs ?W2"
  let ?W3 = "?W2\<lparr>logs := logs ?W2 @
          [(DebugLevel, ''/raw/20240101/sesB/all.zip -> /data/20240101/sesB/all.zip'' @ [CHR 0x0A])],
       fs := ?f2(''/data/20240101/sesB/all.zip'' \<mapsto> File ''PK'' 420)\<rparr>"
  have i: "irods ?W ''/raw/20240101/sesB/all.zip'' = Fetched ''PK''"
    by (simp add: ex_world_def)
  have m: "os_MkdirAll ''/data/20240101/sesB'' (fs ?W) = Some ?f1"
    by (simp add: os_MkdirAll_def ancestors_and_self_def IsPathSeparator_def ex_world_def)
  have d1: "downloadDicom ex_gz ex_opts ''/raw/20240101/sesB/all.zip'' ?W = 
      (Return ''/data/20240101/sesB/all.zip'' None, ?W1)"
    by (rule ex_zip [OF i m])
  have a: "download_worker ex_gz ex_opts [''/raw/20240101/sesB/all.zip''] ?W =
      (([''/data/20240101/sesB/all.zip''], True), ?W1)"
    by (simp only: download_worker.simps d1) simp
  have b: "downloadDicom ex_gz ex_opts ''/raw/20231231/sesC/all.zip'' ?W1 =
     (Return [] (Some (PathResolutionError ''unknown path: /raw/20231231/sesC/all.zip'')), ?W1)"
    by (rule ex_bad)
  have i2: "irods ?W2 ''/raw/20240101/sesB/all.zip'' = Fetched ''PK''"
    by (simp add: ex_world_def log_def)
  have m2: "os_MkdirAll ''/data/20240101/sesB'' (fs ?W2) = Some ?f2"
    by (simp add: os_MkdirAll_def ancestors_and_self_def IsPathSeparator_def ex_world_def log_def)
  have d3: "downloadDicom ex_gz ex_opts ''/raw/20240101/sesB/all.zip'' ?W2 = 
      (Return ''/data/20240101/sesB/all.zip'' None, ?W3)"
    by (rule ex_zip [OF i2 m2])
  have c: "download_worker ex_gz ex_opts [''/raw/20240101/sesB/all.zip''] ?W2 =
      (([''/data/20240101/sesB/all.zip''], True), ?W3)"
    by (simp only: download_worker.simps d3) simp
  have r: "download_worker ex_gz ex_opts
        ([''/raw/20240101/sesB/all.zip''] @ ''/raw/20231231/sesC/all.zip'' # [''/raw/20240101/sesB/all.zip''])
        ?W = (([''/data/20240101/sesB/all.zip''] @ [''/data/20240101/sesB/all.zip''], True), ?W3)"
    unfolding C9_error_isolation [OF a b] c by simp
  have l: "(ErrorLevel, ''unknown path: /raw/20231231/sesC/all.zip'') \<in> set (logs ?W3)"
    by (simp add: log_def)
  have r': "download_worker ex_gz ex_opts
        [''/raw/20240101/sesB/all.zip'', ''/raw/20231231/sesC/all.zip'', ''/raw/20240101/sesB/all.zip'']
        ?W = (([''/data/20240101/sesB/all.zip'', ''/data/20240101/sesB/all.zip''], True), ?W3)"
    using r by (simp only: append.simps)
  show ?thesis
    unfolding r' a b fst_conv snd_conv using l by simp
qed

text \<open>
  C10.  Once the gzip reader is opened on the archive at \<open>loc\<close>, nothing is at \<open>loc\<close>
  when the call returns, whatever the entries of the archive are and whatever the call
  returns: the extracted path, the error of an empty archive, an error of the copy, or a
  panic.  This holds for DicomExtractorTgz.Extract and for downloadDicom.
\<close>

theorem C10_archive_removed:
  assumes "gz bytes = Some tr"
  shows "(fs w loc = Some (File bytes m0) \<longrightarrow>
            fs (snd (Extract gz DicomExtractorTgz loc w)) loc = None)
       \<and> (downloadDicom_loc os path = Return loc None \<and> \<not> isZipFile loc \<and> \<not> isImaFile loc
            \<and> os_MkdirAll (filepath_Dir loc) (fs w) = Some f1 \<and> irods w path = Fetched bytes \<longrightarrow>
            fs (snd (downloadDicom gz os path w)) loc = None)"
proof (intro conjI impI)
  assume "fs w loc = Some (File bytes m0)"
  from Extract_archive [of w loc bytes m0 gz tr] this assms show "fs (snd (Extract gz DicomExtractorTgz loc w)) loc = None"
    by (simp split: prod.splits)
next
  assume h: "downloadDicom_loc os path = Return loc None \<and> \<not> isZipFile loc \<and> \<not> isImaFile loc
            \<and> os_MkdirAll (filepath_Dir loc) (fs w) = Some f1 \<and> irods w path = Fetched bytes"
  then have "downloadDicom gz os path w =
    (case downloadDicom_loop tr path loc (filepath_Dir loc)
            (w\<lparr>logs := logs w @ [(DebugLevel, path @ '' -> '' @ loc @ [CHR 0x0A])],
               fs := f1(loc \<mapsto> File bytes 420)\<rparr>) of
       (r, w3) \<Rightarrow> (r, w3\<lparr>fs := (fs w3)(loc := None)\<rparr>))"
    using downloadDicom_archive [of os path loc w f1 bytes gz tr] assms by blast
  then show "fs (snd (downloadDicom gz os path w)) loc = None"
    by (simp split: prod.splits)
qed

theorem C10_archive_removed_witness:
  "ex_gz ''TGZ3'' = Some ex_noname
   \<and> fst (Extract ex_gz DicomExtractorTgz ''/data/20240101/sesA/001-localizer/s.tar.gz'' (ex_world ''TGZ3'')) =
       Return [] (Some (IOError ''open /data/20240101/sesA/001-localizer: is a directory''))
   \<and> fs (snd (Extract ex_gz DicomExtractorTgz ''/data/20240101/sesA/001-localizer/s.tar.gz''
         (ex_world ''TGZ3''))) ''/data/20240101/sesA/001-localizer/s.tar.gz'' = None
   \<and> fs (snd (downloadDicom ex_gz ex_opts ''/raw/20240101/sesA/001-localizer/s.tar.gz''
         (ex_world ''TGZ3''))) ''/data/20240101/sesA/001-localizer/s.tar.gz'' = None"
proof -
  have g: "ex_gz ''TGZ3'' = Some ex_noname" by (simp add: ex_gz_def)
  have m: "os_MkdirAll (filepath_Dir ''/data/20240101/sesA/001-localizer/s.tar.gz'') (fs (ex_world ''TGZ3''))
      = Some (fs (ex_world ''TGZ3''))"
    unfolding ex_dir by (rule ex_mkdir)
  have f: "fs (ex_world ''TGZ3'') ''/data/20240101/sesA/001-localizer/s.tar.gz'' = Some (File ''TGZ3'' 420)"
    by (simp add: ex_world_def)
  have i: "irods (ex_world ''TGZ3'') ''/raw/20240101/sesA/001-localizer/s.tar.gz'' = Fetched ''TGZ3''"
    by (simp add: ex_world_def)
  have d: "filepath_Join [''/data/20240101/sesA/001-localizer'', filepath_Base []] =
      ''/data/20240101/sesA/001-localizer''"
    by (simp add: path_defs)
  have e: "fst (Extract ex_gz DicomExtractorTgz ''/data/20240101/sesA/001-localizer/s.tar.gz'' (ex_world ''TGZ3'')) =
       Return [] (Some (IOError ''open /data/20240101/sesA/001-localizer: is a directory''))"
    by (simp add: os_defs g ex_dir ex_noname_def TypeReg_neq_TypeDir d Let_def ex_world_def)
  show ?thesis
    using C10_archive_removed [of ex_gz "''TGZ3''" ex_noname "ex_world ''TGZ3''"
        "''/data/20240101/sesA/001-localizer/s.tar.gz''" 420 ex_opts
        "''/raw/20240101/sesA/001-localizer/s.tar.gz''" "fs (ex_world ''TGZ3'')"]
      g m f i ex_loc ex_kind e
    by simp
qed

text \<open>
  C4.  Completion of a worker pool.  In every state that a pool of \<open>W\<close> workers can
  reach: a worker has sent at most one byte on \<open>chanSync\<close>, it has sent one exactly
  when it is finished, and it has left its loop only with the input channel closed and
  empty; when the output channel is closed, waitWorkers has received \<open>W\<close> bytes and
  every worker is finished and has sent its byte, so that no worker is still at its
  receive or in the body of its loop; and no worker has sent on the closed output
  channel.
\<close>

theorem C4_completion:
  assumes "reachable W s"
  shows "(\<forall>k<W. sent s ! k \<le> 1
            \<and> (sent s ! k = 1 \<longleftrightarrow> workers s ! k = Finished)
            \<and> (workers s ! k = Signalling \<or> workers s ! k = Finished \<longrightarrow>
                 in_closed s \<and> chanIn s = []))
       \<and> (out_closed s \<longrightarrow>
            i_wait s = W \<and> (\<forall>k<W. workers s ! k = Finished \<and> sent s ! k = 1))
       \<and> \<not> send_on_closed s"
proof -
  have inv: "pool_inv W s" using assms by (rule reachable_inv)
  have a: "\<forall>k<W. sent s ! k \<le> 1
            \<and> (sent s ! k = 1 \<longleftrightarrow> workers s ! k = Finished)
            \<and> (workers s ! k = Signalling \<or> workers s ! k = Finished \<longrightarrow>
                 in_closed s \<and> chanIn s = [])"
    using inv by (auto simp: pool_inv_def)
  have b: "i_wait s = W \<and> (\<forall>k<W. workers s ! k = Finished \<and> sent s ! k = 1)" if "out_closed s"
  proof -
    from that inv have w: "i_wait s = W" unfolding pool_inv_def by blast
    then have "\<not> i_wait s < W" by simp
    from pool_inv_all_finished [OF inv this] have "\<forall>k<W. workers s ! k = Finished" by blast
    with w inv show ?thesis by (auto simp: pool_inv_def)
  qed
  have c: "\<not> send_on_closed s" using inv by (simp add: pool_inv_def)
  from a b c show ?thesis by blast
qed

theorem C4_completion_witness:
  "reachable 2 ex_pool \<and> out_closed ex_pool \<and> i_wait ex_pool = 2
   \<and> workers ex_pool ! 0 = Finished \<and> workers ex_pool ! 1 = Finished
   \<and> sent ex_pool ! 0 = 1 \<and> sent ex_pool ! 1 = 1
   \<and> in_closed ex_pool \<and> chanIn ex_pool = [] \<and> \<not> send_on_closed ex_pool"
  using C4_completion [OF ex_pool_reachable] ex_pool_reachable
  by (simp add: ex_pool_def)

end
